theory Spec2Isabelle
  imports Main "HOL-Library.Char_ord" "HOL-Library.List_Lexorder"
begin

section \<open>NanoClaw agent runner: a shallow embedding of container/agent-runner/src/index.ts\<close>

text \<open>
  The runner reads one JSON document from standard input, obtains a session from the
  OpenCode engine, and then alternates between submitting a prompt and waiting for the
  next message in the inbox directory \<^verbatim>\<open>/workspace/ipc/input\<close>, until the file
  \<^verbatim>\<open>_close\<close> appears there.

  Conventions of the model.
  \<^item> A JavaScript string is a \<open>string\<close>; a value that came out of \<^verbatim>\<open>JSON.parse\<close> is a
    \<open>json\<close>, with numbers restricted to the integers; \<^verbatim>\<open>undefined\<close> is \<open>None\<close> of an
    option type.
  \<^item> A thrown value is represented by its message.
  \<^item> The inbox directory is an association list from file names to file contents. Reading,
    listing and deleting in it succeed, so the \<^verbatim>\<open>catch\<close> branches that only guard against a
    failing file system call are not branches of the model.
  \<^item> Lines written to standard error (\<^verbatim>\<open>log\<close>) are not recorded; an exception raised while
    a log line is being built is modelled where it can occur.
\<close>

subsection \<open>JavaScript values\<close>

datatype json =
    JNull
  | JBool bool
  | JNum int
  | JStr string
  | JArr "json list"
  | JObj "(string \<times> json) list"

text \<open>Truthiness, as tested by \<^verbatim>\<open>if (v)\<close>, \<^verbatim>\<open>a && b\<close> and \<^verbatim>\<open>filter(Boolean)\<close>.\<close>

fun truthy :: "json \<Rightarrow> bool" where
  "truthy JNull = False"
| "truthy (JBool b) = b"
| "truthy (JNum n) = (n \<noteq> 0)"
| "truthy (JStr s) = (s \<noteq> [])"
| "truthy (JArr xs) = True"
| "truthy (JObj kvs) = True"

fun truthy_opt :: "json option \<Rightarrow> bool" where
  "truthy_opt None = False"
| "truthy_opt (Some v) = truthy v"

text \<open>The message of the TypeError that V8 raises for \<^verbatim>\<open>null.p\<close> and \<^verbatim>\<open>undefined.p\<close>.\<close>

definition cannot_read :: "string \<Rightarrow> string \<Rightarrow> string" where
  "cannot_read what p =
     ''Cannot read properties of '' @ what @ '' (reading '' @ [CHR 0x27] @ p @ [CHR 0x27] @ '')''"

text \<open>
  Property access \<^verbatim>\<open>v.p\<close> for the property names the program reads (none of them is a
  property of a string, a number, a boolean or an array): it throws on \<^verbatim>\<open>null\<close>, looks
  the key up in an object and is \<^verbatim>\<open>undefined\<close> otherwise.
\<close>

fun js_prop :: "json \<Rightarrow> string \<Rightarrow> string + json option" where
  "js_prop JNull p = Inl (cannot_read ''null'' p)"
| "js_prop (JObj kvs) p = Inr (map_of kvs p)"
| "js_prop v p = Inr None"

text \<open>Optional chaining \<^verbatim>\<open>v?.p\<close> on a value that may be \<^verbatim>\<open>undefined\<close> or \<^verbatim>\<open>null\<close>.\<close>

fun js_prop_opt :: "json option \<Rightarrow> string \<Rightarrow> json option" where
  "js_prop_opt (Some (JObj kvs)) p = map_of kvs p"
| "js_prop_opt v p = None"

fun intercalate :: "string \<Rightarrow> string list \<Rightarrow> string" where
  "intercalate sep [] = []"
| "intercalate sep [x] = x"
| "intercalate sep (x # y # ys) = x @ sep @ intercalate sep (y # ys)"

definition digit_char :: "nat \<Rightarrow> char" where
  "digit_char d = ''0123456789'' ! d"

fun show_nat :: "nat \<Rightarrow> string" where
  "show_nat n = (if n < 10 then [digit_char n] else show_nat (n div 10) @ [digit_char (n mod 10)])"

definition show_int :: "int \<Rightarrow> string" where
  "show_int i = (if i < 0 then CHR ''-'' # show_nat (nat (- i)) else show_nat (nat i))"

text \<open>
  \<^verbatim>\<open>String(v)\<close>, which is what \<^verbatim>\<open>Array.prototype.join\<close> applies to each element; inside
  an array \<^verbatim>\<open>null\<close> is rendered as the empty string.
\<close>

fun js_toString :: "json \<Rightarrow> string" where
  "js_toString JNull = ''null''"
| "js_toString (JBool b) = (if b then ''true'' else ''false'')"
| "js_toString (JNum n) = show_int n"
| "js_toString (JStr s) = s"
| "js_toString (JArr xs) =
     intercalate '','' (map (\<lambda>x. if x = JNull then [] else js_toString x) xs)"
| "js_toString (JObj kvs) = ''[object Object]''"

definition join :: "json list \<Rightarrow> string \<Rightarrow> string" where
  "join xs sep = intercalate sep (map (\<lambda>x. if x = JNull then [] else js_toString x) xs)"

subsection \<open>\<^verbatim>\<open>JSON.stringify\<close>\<close>

definition hex_digit :: "nat \<Rightarrow> char" where
  "hex_digit d = ''0123456789abcdef'' ! d"

text \<open>
  QuoteJSONString: the quote, the backslash and the control characters below 0x20 are
  escaped, everything else is copied.
\<close>

definition escape_char :: "char \<Rightarrow> string" where
  "escape_char c =
     (if c = CHR 0x22 then [CHR 0x5C, CHR 0x22]
      else if c = CHR 0x5C then [CHR 0x5C, CHR 0x5C]
      else if c = CHR 0x08 then [CHR 0x5C, CHR ''b'']
      else if c = CHR 0x0C then [CHR 0x5C, CHR ''f'']
      else if c = CHR 0x0A then [CHR 0x5C, CHR ''n'']
      else if c = CHR 0x0D then [CHR 0x5C, CHR ''r'']
      else if c = CHR 0x09 then [CHR 0x5C, CHR ''t'']
      else if (of_char c :: nat) < 32 then
        [CHR 0x5C, CHR ''u'', CHR ''0'', CHR ''0'',
         hex_digit (of_char c div 16), hex_digit (of_char c mod 16)]
      else [c])"

definition quote :: "string \<Rightarrow> string" where
  "quote s = CHR 0x22 # concat (map escape_char s) @ [CHR 0x22]"

fun JSON_stringify :: "json \<Rightarrow> string" where
  "JSON_stringify JNull = ''null''"
| "JSON_stringify (JBool b) = (if b then ''true'' else ''false'')"
| "JSON_stringify (JNum n) = show_int n"
| "JSON_stringify (JStr s) = quote s"
| "JSON_stringify (JArr xs) = ''['' @ intercalate '','' (map JSON_stringify xs) @ '']''"
| "JSON_stringify (JObj kvs) =
     ''{'' @ intercalate '','' (map (\<lambda>(k, v). quote k @ '':'' @ JSON_stringify v) kvs) @ ''}''"

subsection \<open>The runtime the program runs in\<close>

text \<open>
  What the program reads from its surroundings and does not compute itself:
  \<^verbatim>\<open>JSON.parse\<close> (\<open>Inl\<close> carries the message of the SyntaxError), the two global context
  files, the clock readings used by the archiver, whether writing the archive file fails,
  and the answers of the engine to the calls made before the first turn.
\<close>

datatype get_reply = GetThrows string | GetData bool

datatype create_reply = CreateThrows string | CreateData "string option"

record env =
  JSON_parse :: "string \<Rightarrow> string + json"
  agents_md :: "string option"
  claude_md :: "string option"
  iso_date :: string
  clock_hours :: nat
  clock_minutes :: nat
  locale_now :: string
  archive_io_error :: "string option"
  createOpencode :: "string option"
  session_get :: "string \<Rightarrow> get_reply"
  session_create :: "string \<Rightarrow> create_reply"
  inject_reply :: "string option"

subsection \<open>The inbox directory\<close>

type_synonym dir = "(string \<times> string) list"

definition IPC_INPUT_CLOSE_SENTINEL :: string where
  "IPC_INPUT_CLOSE_SENTINEL = ''_close''"

definition existsSync :: "dir \<Rightarrow> string \<Rightarrow> bool" where
  "existsSync d f = (f \<in> set (map fst d))"

definition unlinkSync :: "dir \<Rightarrow> string \<Rightarrow> dir" where
  "unlinkSync d f = filter (\<lambda>e. fst e \<noteq> f) d"

definition readdirSync :: "dir \<Rightarrow> string list" where
  "readdirSync d = map fst d"

definition readFileSync :: "dir \<Rightarrow> string \<Rightarrow> string option" where
  "readFileSync d f = map_of d f"

definition endsWith :: "string \<Rightarrow> string \<Rightarrow> bool" where
  "endsWith s suf = (length suf \<le> length s \<and> drop (length s - length suf) s = suf)"

text \<open>\<^verbatim>\<open>shouldClose\<close>: the answer and the directory afterwards.\<close>

definition shouldClose :: "dir \<Rightarrow> bool \<times> dir" where
  "shouldClose d =
     (if existsSync d IPC_INPUT_CLOSE_SENTINEL
      then (True, unlinkSync d IPC_INPUT_CLOSE_SENTINEL)
      else (False, d))"

text \<open>
  The body of the loop of \<^verbatim>\<open>drainIpcInput\<close> for one file. A file that cannot be read or
  parsed is deleted in the \<^verbatim>\<open>catch\<close> branch; a parsed file is deleted before its fields are
  looked at, and \<^verbatim>\<open>data.type\<close> throws when the file holds \<^verbatim>\<open>null\<close>.
\<close>

definition drain_file :: "env \<Rightarrow> json list \<times> dir \<Rightarrow> string \<Rightarrow> json list \<times> dir" where
  "drain_file e acc file =
     (case acc of (messages, d) \<Rightarrow>
        (case readFileSync d file of
           None \<Rightarrow> (messages, unlinkSync d file)
         | Some raw \<Rightarrow>
             (case JSON_parse e raw of
                Inl err \<Rightarrow> (messages, unlinkSync d file)
              | Inr data \<Rightarrow>
                  (let d' = unlinkSync d file in
                   case js_prop data ''type'' of
                     Inl err \<Rightarrow> (messages, unlinkSync d' file)
                   | Inr ty \<Rightarrow>
                       (case js_prop_opt (Some data) ''text'' of
                          None \<Rightarrow> (messages, d')
                        | Some text \<Rightarrow>
                            if ty = Some (JStr ''message'') \<and> truthy text
                            then (messages @ [text], d')
                            else (messages, d'))))))"

definition drainIpcInput :: "env \<Rightarrow> dir \<Rightarrow> json list \<times> dir" where
  "drainIpcInput e d =
     (let files = sort (filter (\<lambda>f. endsWith f ''.json'') (readdirSync d))
      in foldl (drain_file e) ([], d) files)"

text \<open>A call that is awaited either resolves or never does.\<close>

datatype 'a awaited = Resolved 'a | Pending

text \<open>What the host does to the inbox: it writes a file, a message or the sentinel.\<close>

datatype host_action = PutFile string string

fun host_act :: "dir \<Rightarrow> host_action \<Rightarrow> dir" where
  "host_act d (PutFile f c) = unlinkSync d f @ [(f, c)]"

definition host_acts :: "dir \<Rightarrow> host_action list \<Rightarrow> dir" where
  "host_acts d as = foldl host_act d as"

text \<open>
  \<^verbatim>\<open>waitForIpcMessage\<close> polls at once and then every 500 ms; \<open>batches\<close> lists what the
  host does to the inbox before each later poll, and when the host does nothing more the
  promise stays pending for ever.
\<close>

fun waitForIpcMessage :: "env \<Rightarrow> dir \<Rightarrow> host_action list list \<Rightarrow> string option awaited \<times> dir" where
  "waitForIpcMessage e d batches =
     (case shouldClose d of
        (True, d') \<Rightarrow> (Resolved None, d')
      | (False, d') \<Rightarrow>
          (case drainIpcInput e d' of (messages, d'') \<Rightarrow>
             if length messages > 0 then (Resolved (Some (join messages [CHR 0x0A])), d'')
             else (case batches of
                     [] \<Rightarrow> (Pending, d'')
                   | b # bs \<Rightarrow> waitForIpcMessage e (host_acts d'' b) bs)))"

subsection \<open>Reply extraction\<close>

text \<open>
  \<^verbatim>\<open>parts.filter(p => p.type === 'text')\<close>: the callback throws at the first element that is
  \<^verbatim>\<open>null\<close>.
\<close>

fun text_typed :: "json list \<Rightarrow> string + json list" where
  "text_typed [] = Inr []"
| "text_typed (p # ps) =
     (case js_prop p ''type'' of
        Inl err \<Rightarrow> Inl err
      | Inr ty \<Rightarrow>
          (case text_typed ps of
             Inl err \<Rightarrow> Inl err
           | Inr qs \<Rightarrow> Inr (if ty = Some (JStr ''text'') then p # qs else qs)))"

text \<open>\<^verbatim>\<open>filter(Boolean)\<close> on a list whose elements may be \<^verbatim>\<open>undefined\<close>.\<close>

definition filter_Boolean :: "json option list \<Rightarrow> json list" where
  "filter_Boolean vs = [v. Some v \<leftarrow> vs, truthy v]"

definition structured_fallback :: "json \<Rightarrow> string option" where
  "structured_fallback res =
     (case js_prop_opt (js_prop_opt (Some res) ''info'') ''structured_output'' of
        None \<Rightarrow> None
      | Some v \<Rightarrow> if truthy v then Some (JSON_stringify v) else None)"

definition extractResultText :: "json \<Rightarrow> string + string option" where
  "extractResultText res =
     (case js_prop_opt (Some res) ''parts'' of
        Some (JArr parts) \<Rightarrow>
          (case text_typed parts of
             Inl err \<Rightarrow> Inl err
           | Inr typed \<Rightarrow>
               (let textParts = filter_Boolean (map (\<lambda>p. js_prop_opt (Some p) ''text'') typed)
                in if length textParts > 0 then Inr (Some (join textParts []))
                   else Inr (structured_fallback res)))
      | _ \<Rightarrow> Inr (structured_fallback res))"

subsection \<open>Output protocol\<close>

datatype status = Success | Error

record ContainerOutput =
  status :: status
  result :: "string option"
  newSessionId :: "string option"
  error :: "string option"

definition OUTPUT_START_MARKER :: string where
  "OUTPUT_START_MARKER = ''---NANOCLAW_OUTPUT_START---''"

definition OUTPUT_END_MARKER :: string where
  "OUTPUT_END_MARKER = ''---NANOCLAW_OUTPUT_END---''"

text \<open>
  The object that \<^verbatim>\<open>JSON.stringify\<close> sees: the keys in the order of the object literals
  of the program, a key whose value is \<^verbatim>\<open>undefined\<close> left out.
\<close>

definition output_json :: "ContainerOutput \<Rightarrow> json" where
  "output_json out =
     JObj ([(''status'', JStr (case status out of Success \<Rightarrow> ''success'' | Error \<Rightarrow> ''error'')),
            (''result'', (case result out of None \<Rightarrow> JNull | Some t \<Rightarrow> JStr t))]
           @ (case newSessionId out of None \<Rightarrow> [] | Some s \<Rightarrow> [(''newSessionId'', JStr s)])
           @ (case error out of None \<Rightarrow> [] | Some m \<Rightarrow> [(''error'', JStr m)]))"

text \<open>
  What the program does that can be observed from outside, in the order in which it
  happens: a line written to standard output by \<^verbatim>\<open>console.log\<close>, a call to the engine,
  a file written by the archiver. A prompt carries the session id, the text part and the
  \<^verbatim>\<open>noReply\<close> flag.
\<close>

datatype event =
    Stdout string
  | StartServer
  | SessionGet string
  | SessionCreate string
  | SessionPrompt string json bool
  | SessionAbort string
  | WriteFile string string
  | CloseServer

definition writeOutput :: "ContainerOutput \<Rightarrow> event list" where
  "writeOutput out =
     [Stdout OUTPUT_START_MARKER, Stdout (JSON_stringify (output_json out)), Stdout OUTPUT_END_MARKER]"

subsection \<open>Transcript archiving\<close>

datatype role = User | Assistant

text \<open>
  The content of an entry is the prompt variable of \<^verbatim>\<open>main\<close>, which is \<^verbatim>\<open>undefined\<close>
  when the input document has no \<^verbatim>\<open>prompt\<close>.
\<close>

record ParsedMessage =
  role :: role
  content :: "string option"

definition toLowerCase :: "char \<Rightarrow> char" where
  "toLowerCase c =
     (if 65 \<le> (of_char c :: nat) \<and> (of_char c :: nat) \<le> 90 then char_of (of_char c + 32 :: nat) else c)"

definition alnum :: "char \<Rightarrow> bool" where
  "alnum c = ((97 \<le> (of_char c :: nat) \<and> (of_char c :: nat) \<le> 122)
              \<or> (48 \<le> (of_char c :: nat) \<and> (of_char c :: nat) \<le> 57))"

text \<open>\<^verbatim>\<open>replace(/[^a-z0-9]+/g, '-')\<close>: every maximal run of other characters becomes one dash.\<close>

fun collapse_runs :: "string \<Rightarrow> string" where
  "collapse_runs [] = []"
| "collapse_runs [c] = (if alnum c then [c] else ''-'')"
| "collapse_runs (c # c' # cs) =
     (if alnum c then c # collapse_runs (c' # cs)
      else if alnum c' then CHR ''-'' # collapse_runs (c' # cs)
      else collapse_runs (c' # cs))"

definition trim_dashes :: "string \<Rightarrow> string" where
  "trim_dashes s = rev (dropWhile (\<lambda>c. c = CHR ''-'') (rev (dropWhile (\<lambda>c. c = CHR ''-'') s)))"

definition sanitizeFilename :: "string \<Rightarrow> string" where
  "sanitizeFilename summary = take 50 (trim_dashes (collapse_runs (map toLowerCase summary)))"

definition padStart2 :: "string \<Rightarrow> string" where
  "padStart2 s = (if length s < 2 then replicate (2 - length s) CHR ''0'' @ s else s)"

definition generateFallbackName :: "env \<Rightarrow> string" where
  "generateFallbackName e =
     ''conversation-'' @ padStart2 (show_nat (clock_hours e)) @ padStart2 (show_nat (clock_minutes e))"

text \<open>\<^verbatim>\<open>a || b\<close> on strings that may be absent.\<close>

fun or_else :: "string option \<Rightarrow> string \<Rightarrow> string" where
  "or_else None dflt = dflt"
| "or_else (Some s) dflt = (if s = [] then dflt else s)"

text \<open>One entry of the transcript; \<^verbatim>\<open>msg.content.length\<close> throws when the content is undefined.\<close>

definition format_message :: "string option \<Rightarrow> ParsedMessage \<Rightarrow> string + string list" where
  "format_message assistantName msg =
     (let sender = (if role msg = User then ''User'' else or_else assistantName ''Assistant'')
      in case content msg of
           None \<Rightarrow> Inl (cannot_read ''undefined'' ''length'')
         | Some c \<Rightarrow>
             Inr [''**'' @ sender @ ''**: '' @ (if length c > 2000 then take 2000 c @ ''...'' else c), []])"

fun format_messages :: "string option \<Rightarrow> ParsedMessage list \<Rightarrow> string + string list" where
  "format_messages assistantName [] = Inr []"
| "format_messages assistantName (msg # msgs) =
     (case format_message assistantName msg of
        Inl err \<Rightarrow> Inl err
      | Inr ls \<Rightarrow>
          (case format_messages assistantName msgs of
             Inl err \<Rightarrow> Inl err
           | Inr rest \<Rightarrow> Inr (ls @ rest)))"

definition formatTranscriptMarkdown ::
    "env \<Rightarrow> ParsedMessage list \<Rightarrow> string option \<Rightarrow> string option \<Rightarrow> string + string" where
  "formatTranscriptMarkdown e msgs title assistantName =
     (case format_messages assistantName msgs of
        Inl err \<Rightarrow> Inl err
      | Inr body \<Rightarrow>
          Inr (intercalate [CHR 0x0A]
                 ([''# '' @ or_else title ''Conversation'', [],
                   ''Archived: '' @ locale_now e, [], ''---'', []] @ body)))"

text \<open>
  \<^verbatim>\<open>archiveConversation\<close>: the events it adds. Whatever is thrown inside its \<^verbatim>\<open>try\<close> is
  logged and nothing is written.
\<close>

definition archiveConversation ::
    "env \<Rightarrow> ParsedMessage list \<Rightarrow> string option \<Rightarrow> string option \<Rightarrow> event list" where
  "archiveConversation e msgs assistantName summary =
     (if length msgs = 0 then []
      else
        (let name = (case summary of
                       None \<Rightarrow> generateFallbackName e
                     | Some s \<Rightarrow> if s = [] then generateFallbackName e else sanitizeFilename s);
             filePath = ''/workspace/group/conversations'' @ ''/'' @ iso_date e @ ''-'' @ name @ ''.md''
         in case archive_io_error e of
              Some err \<Rightarrow> []
            | None \<Rightarrow>
                (case formatTranscriptMarkdown e msgs summary assistantName of
                   Inl err \<Rightarrow> []
                 | Inr markdown \<Rightarrow> [WriteFile filePath markdown])))"

subsection \<open>One turn: \<^verbatim>\<open>runQuery\<close>\<close>

text \<open>
  The state that the program shares with the outside: the inbox directory and the
  events so far.
\<close>

record world =
  inbox :: dir
  trace :: "event list"

definition emit :: "world \<Rightarrow> event list \<Rightarrow> world" where
  "emit w evs = w\<lparr>trace := trace w @ evs\<rparr>"

text \<open>
  What the foreground \<^verbatim>\<open>client.session.prompt\<close> does: it throws, it returns an object
  with the fields \<^verbatim>\<open>data\<close> and \<^verbatim>\<open>error\<close>, or it never returns.
\<close>

datatype prompt_reply =
    PromptThrows string
  | PromptResult "json option" "json option"
  | PromptNever

text \<open>
  The surroundings of one iteration of the query loop: \<open>during\<close> lists what the host does
  to the inbox before each tick of the poller while the foreground call is in flight,
  \<open>settle\<close> what it does after the last tick and before the call returns, \<open>reply\<close> how the
  call ends, and \<open>after\<close> what the host does before each later poll of
  \<^verbatim>\<open>waitForIpcMessage\<close>.
\<close>

record turn =
  during :: "host_action list list"
  settle :: "host_action list"
  reply :: prompt_reply
  after :: "host_action list list"

text \<open>
  One tick of \<^verbatim>\<open>pollIpcDuringQuery\<close> while polling is on. The result says whether the
  sentinel was seen. What \<^verbatim>\<open>abort\<close> and the forwarded prompts return or throw is
  swallowed by the program and has no place in the model.
\<close>

definition pollIpcDuringQuery :: "env \<Rightarrow> string \<Rightarrow> world \<Rightarrow> bool \<times> world" where
  "pollIpcDuringQuery e sid w =
     (case shouldClose (inbox w) of
        (True, d') \<Rightarrow> (True, emit (w\<lparr>inbox := d'\<rparr>) [SessionAbort sid])
      | (False, d') \<Rightarrow>
          (case drainIpcInput e d' of (messages, d'') \<Rightarrow>
             (False, emit (w\<lparr>inbox := d''\<rparr>) (map (\<lambda>text. SessionPrompt sid text True) messages))))"

text \<open>
  The ticks that fire while the foreground call is in flight. After the sentinel has
  been seen polling is off, and the host's later actions only change the inbox.
\<close>

fun poll_ticks :: "env \<Rightarrow> string \<Rightarrow> world \<Rightarrow> host_action list list \<Rightarrow> bool \<times> world" where
  "poll_ticks e sid w [] = (False, w)"
| "poll_ticks e sid w (b # bs) =
     (case pollIpcDuringQuery e sid (w\<lparr>inbox := host_acts (inbox w) b\<rparr>) of
        (True, w') \<Rightarrow> (True, w'\<lparr>inbox := host_acts (inbox w') (concat bs)\<rparr>)
      | (False, w') \<Rightarrow> poll_ticks e sid w' bs)"

definition error_output :: "string \<Rightarrow> string \<Rightarrow> ContainerOutput" where
  "error_output sid msg =
     \<lparr>status = Error, result = None, newSessionId = Some sid, error = Some msg\<rparr>"

text \<open>What \<^verbatim>\<open>runQuery\<close> writes once the foreground call has ended.\<close>

definition reply_events :: "string \<Rightarrow> prompt_reply \<Rightarrow> event list" where
  "reply_events sid r =
     (case r of
        PromptThrows msg \<Rightarrow> writeOutput (error_output sid msg)
      | PromptNever \<Rightarrow> []
      | PromptResult data err \<Rightarrow>
          (case data of
             Some dv \<Rightarrow>
               if truthy dv then
                 (case extractResultText dv of
                    Inl msg \<Rightarrow> writeOutput (error_output sid msg)
                  | Inr text \<Rightarrow>
                      writeOutput \<lparr>status = Success, result = text,
                                   newSessionId = Some sid, error = None\<rparr>)
               else (case err of
                       Some ev \<Rightarrow>
                         if truthy ev then writeOutput (error_output sid (JSON_stringify ev)) else []
                     | None \<Rightarrow> [])
           | None \<Rightarrow>
               (case err of
                  Some ev \<Rightarrow>
                    if truthy ev then writeOutput (error_output sid (JSON_stringify ev)) else []
                | None \<Rightarrow> [])))"

text \<open>
  \<^verbatim>\<open>runQuery\<close>: \<open>Resolved closedDuringQuery\<close>, or \<open>Pending\<close> when the foreground call never
  returns, with the world afterwards. With an undefined prompt \<^verbatim>\<open>prompt.length\<close> throws
  before the engine is called, and the \<^verbatim>\<open>catch\<close> branch reports it; no call is in flight
  then, and the fields \<open>during\<close>, \<open>settle\<close> and \<open>reply\<close> of the turn are not used.
\<close>

definition runQuery :: "env \<Rightarrow> string \<Rightarrow> string option \<Rightarrow> turn \<Rightarrow> world \<Rightarrow> bool awaited \<times> world" where
  "runQuery e sid prompt t w =
     (case prompt of
        None \<Rightarrow>
          (Resolved False, emit w (writeOutput (error_output sid (cannot_read ''undefined'' ''length''))))
      | Some p \<Rightarrow>
          (case poll_ticks e sid (emit w [SessionPrompt sid (JStr p) False]) (during t) of
             (closedDuringQuery, w') \<Rightarrow>
               (let w'' = w'\<lparr>inbox := host_acts (inbox w') (settle t)\<rparr>
                in case reply t of
                     PromptNever \<Rightarrow> (Pending, w'')
                   | r \<Rightarrow> (Resolved closedDuringQuery, emit w'' (reply_events sid r)))))"

subsection \<open>The query loop and \<^verbatim>\<open>main\<close>\<close>

text \<open>
  How the loop ends: by one of its two \<^verbatim>\<open>break\<close>s, blocked for ever on a promise that
  never resolves, or at the point where the description of the surroundings ends
  (\<open>ScriptEnd\<close>: the program is about to start an iteration that the script says nothing
  about).
\<close>

datatype loop_end = Break | Blocked | ScriptEnd

definition heartbeat :: "string \<Rightarrow> ContainerOutput" where
  "heartbeat sid = \<lparr>status = Success, result = None, newSessionId = Some sid, error = None\<rparr>"

text \<open>
  The \<^verbatim>\<open>while (true)\<close> loop of \<^verbatim>\<open>main\<close>. Nothing inside it throws in this model
  (\<^verbatim>\<open>runQuery\<close> catches what the engine throws, \<^verbatim>\<open>waitForIpcMessage\<close> never rejects), so the
  \<^verbatim>\<open>catch\<close> branch around the loop is not reached.
\<close>

fun query_loop ::
    "env \<Rightarrow> string \<Rightarrow> string option \<Rightarrow> ParsedMessage list \<Rightarrow> world \<Rightarrow> turn list
       \<Rightarrow> loop_end \<times> ParsedMessage list \<times> world" where
  "query_loop e sid prompt msgs w [] = (ScriptEnd, msgs, w)"
| "query_loop e sid prompt msgs w (t # ts) =
     (let msgs' = msgs @ [\<lparr>role = User, content = prompt\<rparr>]
      in case runQuery e sid prompt t w of
           (Pending, w') \<Rightarrow> (Blocked, msgs', w')
         | (Resolved True, w') \<Rightarrow> (Break, msgs', w')
         | (Resolved False, w') \<Rightarrow>
             (let w'' = emit w' (writeOutput (heartbeat sid))
              in case waitForIpcMessage e (inbox w'') (after t) of
                   (Pending, d) \<Rightarrow> (Blocked, msgs', w''\<lparr>inbox := d\<rparr>)
                 | (Resolved None, d) \<Rightarrow> (Break, msgs', w''\<lparr>inbox := d\<rparr>)
                 | (Resolved (Some nextMessage), d) \<Rightarrow>
                     query_loop e sid (Some nextMessage) msgs' (w''\<lparr>inbox := d\<rparr>) ts))"

text \<open>
  The fields of the input document that the modelled part of \<^verbatim>\<open>main\<close> reads. The
  document is cast to \<^verbatim>\<open>ContainerInput\<close> without any check, so each of them may be absent;
  a field that is present is taken to hold a value of its declared type.
\<close>

record ContainerInput =
  prompt :: "string option"
  sessionId :: "string option"
  groupFolder :: "string option"
  isScheduledTask :: bool
  assistantName :: "string option"

definition str_field :: "json \<Rightarrow> string \<Rightarrow> string option" where
  "str_field v k = (case js_prop_opt (Some v) k of Some (JStr s) \<Rightarrow> Some s | _ \<Rightarrow> None)"

definition as_ContainerInput :: "json \<Rightarrow> ContainerInput" where
  "as_ContainerInput v =
     \<lparr>prompt = str_field v ''prompt'',
      sessionId = str_field v ''sessionId'',
      groupFolder = str_field v ''groupFolder'',
      isScheduledTask = truthy_opt (js_prop_opt (Some v) ''isScheduledTask''),
      assistantName = str_field v ''assistantName''\<rparr>"

text \<open>A string that may be undefined, inside a template literal or a concatenation.\<close>

fun template :: "string option \<Rightarrow> string" where
  "template None = ''undefined''"
| "template (Some s) = s"

text \<open>
  How the process ends: \<^verbatim>\<open>process.exit(n)\<close> or a return of \<^verbatim>\<open>main\<close> (\<open>Exited\<close>), a
  rejection of the promise of \<^verbatim>\<open>main\<close> that nothing handles (\<open>Uncaught\<close>), or not at all.
  Node.js ends a process whose promise rejection is unhandled with exit status 1.
\<close>

datatype outcome = Exited nat | Uncaught string | Waiting loop_end

fun exit_status :: "outcome \<Rightarrow> nat option" where
  "exit_status (Exited n) = Some n"
| "exit_status (Uncaught msg) = Some 1"
| "exit_status (Waiting l) = None"

record run =
  outcome :: outcome
  final :: world
  messages :: "ParsedMessage list"

text \<open>
  \<^verbatim>\<open>buildSystemContext\<close>: the first of \<^verbatim>\<open>/workspace/global/AGENTS.md\<close> and
  \<^verbatim>\<open>/workspace/global/CLAUDE.md\<close> that exists.
\<close>

definition buildSystemContext :: "env \<Rightarrow> string option" where
  "buildSystemContext e =
     (case agents_md e of
        Some c \<Rightarrow> Some c
      | None \<Rightarrow> (case claude_md e of Some c \<Rightarrow> Some c | None \<Rightarrow> None))"

text \<open>
  Creating or resuming the session: the events, and the session id or the message of
  what is thrown. \<^verbatim>\<open>created.data!.id\<close> throws when the engine returns no data.
\<close>

definition obtain_session :: "env \<Rightarrow> ContainerInput \<Rightarrow> event list \<times> (string + string)" where
  "obtain_session e ci =
     (let title = ''nanoclaw-'' @ template (groupFolder ci);
          create = (\<lambda>evs.
            (evs @ [SessionCreate title],
             (case session_create e title of
                CreateThrows msg \<Rightarrow> Inl msg
              | CreateData None \<Rightarrow> Inl (cannot_read ''undefined'' ''id'')
              | CreateData (Some sid) \<Rightarrow> Inr sid)))
      in case sessionId ci of
           None \<Rightarrow> create []
         | Some sid \<Rightarrow>
             if sid = [] then create []
             else (case session_get e sid of
                     GetThrows msg \<Rightarrow> create [SessionGet sid]
                   | GetData False \<Rightarrow> create [SessionGet sid]
                   | GetData True \<Rightarrow> ([SessionGet sid], Inr sid)))"

definition SCHEDULED_PREFIX :: string where
  "SCHEDULED_PREFIX =
     ''[SCHEDULED TASK - The following message was sent automatically and is not coming directly from the user or group.]''
     @ [CHR 0x0A, CHR 0x0A]"

definition initial_prompt :: "ContainerInput \<Rightarrow> json list \<Rightarrow> string option" where
  "initial_prompt ci pending =
     (let p = (if isScheduledTask ci then Some (SCHEDULED_PREFIX @ template (prompt ci)) else prompt ci)
      in if length pending > 0 then Some (template p @ [CHR 0x0A] @ join pending [CHR 0x0A]) else p)"

text \<open>
  The part of \<^verbatim>\<open>main\<close> that follows the injection of the system context: the initial
  prompt, the query loop, and the teardown (archiving, closing the server) when the loop
  is left.
\<close>

definition run_session :: "env \<Rightarrow> ContainerInput \<Rightarrow> string \<Rightarrow> world \<Rightarrow> turn list \<Rightarrow> run" where
  "run_session e ci sid w script =
     (case drainIpcInput e (inbox w) of (pending, d') \<Rightarrow>
        (case query_loop e sid (initial_prompt ci pending) [] (w\<lparr>inbox := d'\<rparr>) script of
           (Break, msgs, w') \<Rightarrow>
             \<lparr>outcome = Exited 0,
              final = emit w' (archiveConversation e msgs (assistantName ci) None @ [CloseServer]),
              messages = msgs\<rparr>
         | (l, msgs, w') \<Rightarrow> \<lparr>outcome = Waiting l, final = w', messages = msgs\<rparr>))"

text \<open>
  \<^verbatim>\<open>main\<close>, from the standard input \<open>stdinData\<close>, the inbox \<open>d\<close> found at startup and the
  script of the iterations. Writing \<^verbatim>\<open>opencode.json\<close> and deleting \<^verbatim>\<open>/tmp/input.json\<close>
  touch nothing that is observed here and are left out: these file-system calls, creating
  the inbox directory and reading the global context file are taken to succeed. The calls
  that start the server, create the session and inject the context are outside every
  \<^verbatim>\<open>try\<close>.
\<close>

definition main :: "env \<Rightarrow> dir \<Rightarrow> string \<Rightarrow> turn list \<Rightarrow> run" where
  "main e d stdinData script =
     (let parse_failure = (\<lambda>msg.
            \<lparr>outcome = Exited 1,
             final = \<lparr>inbox = d,
                      trace = writeOutput \<lparr>status = Error, result = None, newSessionId = None,
                                           error = Some (''Failed to parse input: '' @ msg)\<rparr>\<rparr>,
             messages = []\<rparr>)
      in case JSON_parse e stdinData of
           Inl msg \<Rightarrow> parse_failure msg
         | Inr v \<Rightarrow>
             (case js_prop v ''groupFolder'' of
                Inl msg \<Rightarrow> parse_failure msg
              | Inr gf \<Rightarrow>
                  (let ci = as_ContainerInput v;
                       w0 = \<lparr>inbox = unlinkSync d IPC_INPUT_CLOSE_SENTINEL, trace = [StartServer]\<rparr>
                   in case createOpencode e of
                        Some msg \<Rightarrow> \<lparr>outcome = Uncaught msg, final = w0, messages = []\<rparr>
                      | None \<Rightarrow>
                          (case obtain_session e ci of
                             (evs, Inl msg) \<Rightarrow>
                               \<lparr>outcome = Uncaught msg, final = emit w0 evs, messages = []\<rparr>
                           | (evs, Inr sid) \<Rightarrow>
                               (let w1 = emit w0 evs
                                in case buildSystemContext e of
                                     None \<Rightarrow> run_session e ci sid w1 script
                                   | Some c \<Rightarrow>
                                       if c = [] then run_session e ci sid w1 script
                                       else
                                         (let w2 = emit w1 [SessionPrompt sid (JStr c) True]
                                          in case inject_reply e of
                                               Some msg \<Rightarrow>
                                                 \<lparr>outcome = Uncaught msg, final = w2, messages = []\<rparr>
                                             | None \<Rightarrow> run_session e ci sid w2 script))))))"

section \<open>Definitions used to state the properties\<close>

text \<open>
  A file of the inbox is a well-formed message with text \<open>t\<close> when it parses to an object
  whose \<^verbatim>\<open>type\<close> is \<^verbatim>\<open>"message"\<close> and whose \<^verbatim>\<open>text\<close> is the string \<open>t\<close>.
\<close>

definition message_file :: "env \<Rightarrow> string \<Rightarrow> string \<Rightarrow> bool" where
  "message_file e raw t =
     (case JSON_parse e raw of
        Inl err \<Rightarrow> False
      | Inr data \<Rightarrow>
          (case data of
             JObj kvs \<Rightarrow>
               map_of kvs ''type'' = Some (JStr ''message'') \<and> map_of kvs ''text'' = Some (JStr t)
           | _ \<Rightarrow> False))"

text \<open>
  The \<^verbatim>\<open>text\<close> member of a file of the inbox that parses to an object whose \<^verbatim>\<open>type\<close> is
  \<^verbatim>\<open>"message"\<close>, if the file is one and has the member.
\<close>

definition message_payload :: "env \<Rightarrow> string \<Rightarrow> json option" where
  "message_payload e raw =
     (case JSON_parse e raw of
        Inl err \<Rightarrow> None
      | Inr data \<Rightarrow>
          (case data of
             JObj kvs \<Rightarrow>
               if map_of kvs ''type'' = Some (JStr ''message'') then map_of kvs ''text'' else None
           | _ \<Rightarrow> None))"

text \<open>
  Concrete surroundings for the examples: a parser that inverts \<open>JSON_stringify\<close> on a
  given list of values and rejects every other text, no global context file, and an
  engine that knows no earlier session and creates the session \<^verbatim>\<open>ses_1\<close>.
\<close>

definition parse_among :: "json list \<Rightarrow> string \<Rightarrow> string + json" where
  "parse_among vs s =
     (case find (\<lambda>v. JSON_stringify v = s) vs of
        Some v \<Rightarrow> Inr v
      | None \<Rightarrow> Inl ''Unexpected token'')"

definition sample_env :: "json list \<Rightarrow> env" where
  "sample_env vs =
     \<lparr>JSON_parse = parse_among vs, agents_md = None, claude_md = None,
      iso_date = ''2026-03-01'', clock_hours = 9, clock_minutes = 5,
      locale_now = ''Mar 1, 9:05 AM'', archive_io_error = None, createOpencode = None,
      session_get = (\<lambda>sid. GetData False),
      session_create = (\<lambda>title. CreateData (Some ''ses_1'')),
      inject_reply = None\<rparr>"

definition message :: "string \<Rightarrow> json" where
  "message t = JObj [(''type'', JStr ''message''), (''text'', JStr t)]"

definition sample_reply :: "string \<Rightarrow> json" where
  "sample_reply t = JObj [(''parts'', JArr [JObj [(''type'', JStr ''text''), (''text'', JStr t)]])]"

definition sample_input :: json where
  "sample_input =
     JObj [(''prompt'', JStr ''hello''), (''groupFolder'', JStr ''g1''), (''isMain'', JBool False)]"

definition sample_stdin :: string where
  "sample_stdin = JSON_stringify sample_input"

text \<open>The same surroundings with an engine that refuses to create a session.\<close>

definition no_engine_env :: env where
  "no_engine_env =
     (sample_env [sample_input])\<lparr>session_create := (\<lambda>title. CreateThrows ''engine unavailable'')\<rparr>"

text \<open>
  An iteration with no poller tick, after which the host writes the sentinel; and an
  iteration during which the host writes the sentinel and a further message before the
  first tick of the poller, so that the turn is aborted.
\<close>

definition close_after_turn :: "prompt_reply \<Rightarrow> turn" where
  "close_after_turn r = \<lparr>during = [], settle = [], reply = r, after = [[PutFile ''_close'' []]]\<rparr>"

definition abort_turn :: turn where
  "abort_turn =
     \<lparr>during = [[PutFile ''_close'' [], PutFile ''2.json'' (JSON_stringify (message ''next''))]],
      settle = [], reply = PromptThrows ''aborted'', after = []\<rparr>"

text \<open>The lines written to standard output, and the events that a turn can add.\<close>

fun stdout_lines :: "event list \<Rightarrow> string list" where
  "stdout_lines [] = []"
| "stdout_lines (Stdout l # evs) = l # stdout_lines evs"
| "stdout_lines (ev # evs) = stdout_lines evs"

fun turn_event :: "event \<Rightarrow> bool" where
  "turn_event (Stdout l) = True"
| "turn_event (SessionPrompt sid text noReply) = True"
| "turn_event (SessionAbort sid) = True"
| "turn_event ev = False"

text \<open>
  The input cannot be used: \<^verbatim>\<open>JSON.parse\<close> throws, or it returns \<^verbatim>\<open>null\<close> and reading
  \<^verbatim>\<open>containerInput.groupFolder\<close> throws inside the same \<^verbatim>\<open>try\<close>.
\<close>

definition unparseable :: "env \<Rightarrow> string \<Rightarrow> bool" where
  "unparseable e s = (case JSON_parse e s of Inl msg \<Rightarrow> True | Inr v \<Rightarrow> v = JNull)"

text \<open>The system context that \<^verbatim>\<open>main\<close> injects, if any: a non-empty global context file.\<close>

definition context_of :: "env \<Rightarrow> string option" where
  "context_of e =
     (case buildSystemContext e of None \<Rightarrow> None | Some c \<Rightarrow> if c = [] then None else Some c)"

text \<open>
  One of the calls before the query loop throws: starting the server, creating the
  session (or the engine returns no session), or injecting the system context.
\<close>

definition setup_fails :: "env \<Rightarrow> string \<Rightarrow> bool" where
  "setup_fails e s =
     (case JSON_parse e s of
        Inl msg \<Rightarrow> False
      | Inr v \<Rightarrow>
          v \<noteq> JNull \<and>
          (createOpencode e \<noteq> None
           \<or> isl (snd (obtain_session e (as_ContainerInput v)))
           \<or> (context_of e \<noteq> None \<and> inject_reply e \<noteq> None)))"

text \<open>
  The foreground call fails with the description \<open>msg\<close>: it throws \<open>msg\<close>, or it returns
  no data and an error whose serialization is \<open>msg\<close>.
\<close>

fun failed_with :: "prompt_reply \<Rightarrow> string \<Rightarrow> bool" where
  "failed_with (PromptThrows m) msg = (msg = m)"
| "failed_with (PromptResult data err) msg =
     (\<not> truthy_opt data
      \<and> (case err of None \<Rightarrow> False | Some ev \<Rightarrow> truthy ev \<and> msg = JSON_stringify ev))"
| "failed_with PromptNever msg = False"

text \<open>
  The content fragments of a response, the fragments typed \<^verbatim>\<open>text\<close>, and their texts. A
  fragment is as the engine's types describe it when it is not \<^verbatim>\<open>null\<close> and, if typed
  \<^verbatim>\<open>text\<close>, carries a string as its text or no text at all.
\<close>

definition parts_of :: "json \<Rightarrow> json list" where
  "parts_of res = (case js_prop_opt (Some res) ''parts'' of Some (JArr ps) \<Rightarrow> ps | _ \<Rightarrow> [])"

definition text_typed_fragment :: "json \<Rightarrow> bool" where
  "text_typed_fragment p = (js_prop_opt (Some p) ''type'' = Some (JStr ''text''))"

definition fragment_text :: "json \<Rightarrow> string" where
  "fragment_text p = (case js_prop_opt (Some p) ''text'' of Some (JStr t) \<Rightarrow> t | _ \<Rightarrow> [])"

definition fragment_ok :: "json \<Rightarrow> bool" where
  "fragment_ok p =
     (p \<noteq> JNull \<and>
      (text_typed_fragment p \<longrightarrow>
         (case js_prop_opt (Some p) ''text'' of
            None \<Rightarrow> True
          | Some (JStr t) \<Rightarrow> True
          | _ \<Rightarrow> False)))"

definition text_fragments :: "json list \<Rightarrow> string list" where
  "text_fragments ps = map fragment_text (filter text_typed_fragment ps)"

text \<open>
  The reply-extraction policy in the words of the specification: the concatenation of
  the text-typed fragments if there are any, else the serialization of the fallback
  field if it is present, else nothing.
\<close>

definition claimed_reply_text :: "json \<Rightarrow> string option" where
  "claimed_reply_text res =
     (if filter text_typed_fragment (parts_of res) \<noteq> []
      then Some (concat (text_fragments (parts_of res)))
      else (case js_prop_opt (js_prop_opt (Some res) ''info'') ''structured_output'' of
              Some v \<Rightarrow> Some (JSON_stringify v)
            | None \<Rightarrow> None))"

section \<open>The reader of the output protocol\<close>

text \<open>
  The characters that the \<^verbatim>\<open>console.log\<close> calls recorded in a list of events put on
  standard output: each line is followed by a newline.
\<close>

definition stdout_text :: "event list \<Rightarrow> string" where
  "stdout_text evs = concat (map (\<lambda>l. l @ [CHR 0x0A]) (stdout_lines evs))"

text \<open>
  Modelled from the spec: the host-side reader of standard output is not part of the
  sources at hand. The specification describes it as scanning the stream for marker pairs,
  splitting it on the two marker literals, and JSON-decoding the enclosed line.
  \<open>split_marker m s\<close> splits \<open>s\<close> at the first occurrence of the literal \<open>m\<close>, into what
  precedes it and what follows it; there is no result when \<open>m\<close> does not occur.
\<close>

fun split_marker :: "string \<Rightarrow> string \<Rightarrow> (string \<times> string) option" where
  "split_marker m [] = (if m = [] then Some ([], []) else None)"
| "split_marker m (c # cs) =
     (if take (length m) (c # cs) = m then Some ([], drop (length m) (c # cs))
      else (case split_marker m cs of
              None \<Rightarrow> None
            | Some (before, rest) \<Rightarrow> Some (c # before, rest)))"

text \<open>
  Modelled from the spec: the line enclosed by a marker pair, which is what stands between
  the two literals without the line breaks around it.
\<close>

definition enclosed_line :: "string \<Rightarrow> string" where
  "enclosed_line s =
     rev (dropWhile (\<lambda>c. c = CHR 0x0A) (rev (dropWhile (\<lambda>c. c = CHR 0x0A) s)))"

text \<open>
  Modelled from the spec: the JSON decoder of the host-side reader, for the documents
  that an envelope can be: an object whose members are strings or \<^verbatim>\<open>null\<close>. \<open>hex_value\<close>
  and \<open>hex4\<close> read the four digits of a \<^verbatim>\<open>\u\<close> escape; a code unit above 255 has no
  counterpart in the strings of this model and is refused.
\<close>

definition hex_value :: "char \<Rightarrow> nat option" where
  "hex_value h =
     (let n = (of_char h :: nat)
      in if 48 \<le> n \<and> n \<le> 57 then Some (n - 48)
         else if 97 \<le> n \<and> n \<le> 102 then Some (n - 87)
         else if 65 \<le> n \<and> n \<le> 70 then Some (n - 55)
         else None)"

text \<open>Modelled from the spec: the character denoted by the four digits of a \<^verbatim>\<open>\u\<close> escape.\<close>

definition hex4 :: "char \<Rightarrow> char \<Rightarrow> char \<Rightarrow> char \<Rightarrow> char option" where
  "hex4 a b c d =
     (case (hex_value a, hex_value b, hex_value c, hex_value d) of
        (Some x, Some y, Some z, Some u) \<Rightarrow>
          (let n = ((x * 16 + y) * 16 + z) * 16 + u in if n < 256 then Some (char_of n) else None)
      | _ \<Rightarrow> None)"

text \<open>Modelled from the spec: the character that follows a backslash in a JSON string.\<close>

definition unescape_char :: "char \<Rightarrow> char option" where
  "unescape_char x =
     (if x = CHR 0x22 then Some (CHR 0x22)
      else if x = CHR 0x5C then Some (CHR 0x5C)
      else if x = CHR ''/'' then Some (CHR ''/'')
      else if x = CHR ''b'' then Some (CHR 0x08)
      else if x = CHR ''f'' then Some (CHR 0x0C)
      else if x = CHR ''n'' then Some (CHR 0x0A)
      else if x = CHR ''r'' then Some (CHR 0x0D)
      else if x = CHR ''t'' then Some (CHR 0x09)
      else None)"

text \<open>
  Modelled from the spec: the body of a JSON string literal, read up to the closing
  quote; the result is the decoded string and the rest of the input. A control character
  that is not escaped is an error, as in \<^verbatim>\<open>JSON.parse\<close>.
\<close>

fun lex_string :: "string \<Rightarrow> string \<Rightarrow> (string \<times> string) option" where
  "lex_string acc [] = None"
| "lex_string acc (c # cs) =
     (if c = CHR 0x22 then Some (rev acc, cs)
      else if c = CHR 0x5C then
        (case cs of
           [] \<Rightarrow> None
         | x # xs \<Rightarrow>
             if x = CHR ''u'' then
               (case xs of
                  h1 # h2 # h3 # h4 # ys \<Rightarrow>
                    (case hex4 h1 h2 h3 h4 of
                       None \<Rightarrow> None
                     | Some ch \<Rightarrow> lex_string (ch # acc) ys)
                | _ \<Rightarrow> None)
             else (case unescape_char x of
                     None \<Rightarrow> None
                   | Some ch \<Rightarrow> lex_string (ch # acc) xs))
      else if (of_char c :: nat) < 32 then None
      else lex_string (c # acc) cs)"

text \<open>Modelled from the spec: a member value of an envelope, a string or \<^verbatim>\<open>null\<close>.\<close>

definition parse_value :: "string \<Rightarrow> (json \<times> string) option" where
  "parse_value s =
     (case s of
        [] \<Rightarrow> None
      | c # cs \<Rightarrow>
          if c = CHR 0x22 then
            (case lex_string [] cs of None \<Rightarrow> None | Some (t, r) \<Rightarrow> Some (JStr t, r))
          else if take 4 s = ''null'' then Some (JNull, drop 4 s)
          else None)"

text \<open>Modelled from the spec: one member of a JSON object, a key, a colon and a value.\<close>

definition parse_member :: "string \<Rightarrow> ((string \<times> json) \<times> string) option" where
  "parse_member s =
     (case s of
        [] \<Rightarrow> None
      | c # cs \<Rightarrow>
          if c = CHR 0x22 then
            (case lex_string [] cs of
               None \<Rightarrow> None
             | Some (k, r) \<Rightarrow>
                 (case r of
                    [] \<Rightarrow> None
                  | c' # r' \<Rightarrow>
                      if c' = CHR '':'' then
                        (case parse_value r' of
                           None \<Rightarrow> None
                         | Some (v, r'') \<Rightarrow> Some ((k, v), r''))
                      else None))
          else None)"

text \<open>
  Modelled from the spec: the members of a JSON object up to the closing brace, which
  must end the line. Each member consumes input, which is why the recursion ends.
\<close>

function parse_members :: "string \<Rightarrow> (string \<times> json) list option" where
  "parse_members s =
     (case parse_member s of
        None \<Rightarrow> None
      | Some (kv, r) \<Rightarrow>
          (case r of
             [] \<Rightarrow> None
           | c # r' \<Rightarrow>
               if c = CHR '','' then map_option (Cons kv) (parse_members r')
               else if c = CHR ''}'' \<and> r' = [] then Some [kv]
               else None))"
  by pat_completeness auto
termination
proof -
  have lex: "lex_string acc s = Some (t, r) \<Longrightarrow> length r < length s" for acc s t r
  proof (induction acc s arbitrary: t r rule: lex_string.induct)
    case (1 acc)
    then show ?case by simp
  next
    case (2 acc c cs)
    show ?case
    proof (cases "c = CHR 0x22")
      case True
      with 2(4) show ?thesis by simp
    next
      case nq: False
      show ?thesis
      proof (cases "c = CHR 0x5C")
        case False
        with nq 2(3)[of t r] 2(4) show ?thesis
          by (auto split: if_splits intro: less_SucI)
      next
        case True
        with nq 2(4) obtain x xs where cs: "cs = x # xs" by (cases cs) auto
        show ?thesis
        proof (cases "x = CHR ''u''")
          case False
          with nq True cs 2(4) obtain ch where ch: "unescape_char x = Some ch"
            "lex_string (ch # acc) xs = Some (t, r)"
            by (auto split: option.splits)
          from 2(2)[OF nq True cs False ch(1) ch(2)] cs show ?thesis by simp
        next
          case u: True
          with nq True cs 2(4) obtain h1 h2 h3 h4 ys ch where
            xs: "xs = h1 # h2 # h3 # h4 # ys" and ch: "hex4 h1 h2 h3 h4 = Some ch"
            "lex_string (ch # acc) ys = Some (t, r)"
            by (auto split: list.splits option.splits)
          from 2(1)[OF nq True cs u xs refl refl refl ch(1) ch(2)] cs xs show ?thesis by simp
        qed
      qed
    qed
  qed
  have val: "parse_value s = Some (v, r) \<Longrightarrow> length r < length s" for s v r
    by (auto simp: parse_value_def split: list.splits if_splits option.splits dest!: lex)
  have mem: "parse_member s = Some (kv, r) \<Longrightarrow> length r < length s" for s kv r
    by (auto simp: parse_member_def split: list.splits if_splits option.splits
          dest!: lex val)
  show ?thesis
    by (relation "measure length") (auto dest!: mem)
qed

text \<open>Modelled from the spec: the decoding of a line as a JSON object.\<close>

definition JSON_decode_object :: "string \<Rightarrow> (string \<times> json) list option" where
  "JSON_decode_object s =
     (case s of
        [] \<Rightarrow> None
      | c # cs \<Rightarrow>
          if c = CHR ''{'' then (if cs = ''}'' then Some [] else parse_members cs) else None)"

text \<open>
  Modelled from the spec: the decoded object read as a ResultEnvelope, with a status,
  a text that may be \<^verbatim>\<open>null\<close>, and the optional session id and error.
\<close>

definition as_envelope :: "(string \<times> json) list \<Rightarrow> ContainerOutput option" where
  "as_envelope kvs =
     (case (map_of kvs ''status'', map_of kvs ''result'') of
        (Some (JStr st), Some res) \<Rightarrow>
          (let sid = map_of kvs ''newSessionId''; err = map_of kvs ''error''
           in if (st = ''success'' \<or> st = ''error'')
                 \<and> (case res of JNull \<Rightarrow> True | JStr t \<Rightarrow> True | _ \<Rightarrow> False)
                 \<and> (case sid of None \<Rightarrow> True | Some (JStr t) \<Rightarrow> True | _ \<Rightarrow> False)
                 \<and> (case err of None \<Rightarrow> True | Some (JStr t) \<Rightarrow> True | _ \<Rightarrow> False)
              then Some \<lparr>status = (if st = ''success'' then Success else Error),
                         result = (case res of JStr t \<Rightarrow> Some t | _ \<Rightarrow> None),
                         newSessionId = (case sid of Some (JStr t) \<Rightarrow> Some t | _ \<Rightarrow> None),
                         error = (case err of Some (JStr t) \<Rightarrow> Some t | _ \<Rightarrow> None)\<rparr>
              else None)
      | _ \<Rightarrow> None)"

text \<open>Modelled from the spec: the decoding of the payload line of a block.\<close>

definition decode_envelope :: "string \<Rightarrow> ContainerOutput option" where
  "decode_envelope line =
     (case JSON_decode_object line of None \<Rightarrow> None | Some kvs \<Rightarrow> as_envelope kvs)"

text \<open>
  Modelled from the spec: the host-side reader as a whole. It looks for the next start
  marker literal and for the next end marker literal after it, decodes the line enclosed
  by the two, and goes on with what follows the end marker. It yields one result for each
  marker pair of the stream, \<open>None\<close> where the enclosed text does not decode.
\<close>

function host_read :: "string \<Rightarrow> ContainerOutput option list" where
  "host_read text =
     (case split_marker OUTPUT_START_MARKER text of
        None \<Rightarrow> []
      | Some (before, rest) \<Rightarrow>
          (case split_marker OUTPUT_END_MARKER rest of
             None \<Rightarrow> []
           | Some (body, rest') \<Rightarrow> decode_envelope (enclosed_line body) # host_read rest'))"
  by pat_completeness auto
termination
proof -
  have le: "split_marker m s = Some (b, r) \<Longrightarrow> length r \<le> length s" for m s b r
    by (induction s arbitrary: b) (auto split: if_splits option.splits)
  have lt: "split_marker m s = Some (b, r) \<Longrightarrow> m \<noteq> [] \<Longrightarrow> length r < length s" for m s b r
  proof (induction s arbitrary: b)
    case Nil
    then show ?case by simp
  next
    case (Cons c cs)
    show ?case
    proof (cases "take (length m) (c # cs) = m")
      case True
      with Cons.prems show ?thesis by (cases m) auto
    next
      case False
      with Cons.prems obtain b' where "split_marker m cs = Some (b', r)"
        by (auto split: option.splits)
      from Cons.IH[OF this Cons.prems(2)] show ?thesis by simp
    qed
  qed
  have ne: "OUTPUT_START_MARKER \<noteq> []" by (simp add: OUTPUT_START_MARKER_def)
  show ?thesis
  proof (relation "measure length")
    show "wf (measure length)" by simp
  next
    fix stream x2 before rest x2a body rest'
    assume a: "split_marker OUTPUT_START_MARKER stream = Some x2" "(before, rest) = x2"
      "split_marker OUTPUT_END_MARKER rest = Some x2a" "(body, rest') = x2a"
    then have "length rest < length stream" "length rest' \<le> length rest"
      using lt[of OUTPUT_START_MARKER stream before rest] le[of OUTPUT_END_MARKER rest body rest'] ne
      by auto
    then show "(rest', stream) \<in> measure length" by simp
  qed
qed

text \<open>The literal \<open>m\<close> occurs in the text \<open>s\<close>.\<close>

fun occurs :: "string \<Rightarrow> string \<Rightarrow> bool" where
  "occurs m [] = (m = [])"
| "occurs m (c # cs) = (take (length m) (c # cs) = m \<or> occurs m cs)"

text \<open>A success envelope whose reply text is the end marker literal itself.\<close>

definition marker_envelope :: ContainerOutput where
  "marker_envelope =
     \<lparr>status = Success, result = Some OUTPUT_END_MARKER, newSessionId = Some ''ses_1'',
      error = None\<rparr>"

text \<open>The values and the member texts of an object that an envelope serializes to.\<close>

fun flat_value :: "json \<Rightarrow> bool" where
  "flat_value JNull = True"
| "flat_value (JStr t) = True"
| "flat_value v = False"

definition member_text :: "string \<times> json \<Rightarrow> string" where
  "member_text kv = quote (fst kv) @ '':'' @ JSON_stringify (snd kv)"

section \<open>Evaluation of the examples\<close>

lemmas eval_defs = main_def run_session_def sample_env_def parse_among_def obtain_session_def
  as_ContainerInput_def str_field_def initial_prompt_def drainIpcInput_def readdirSync_def
  endsWith_def runQuery_def reply_events_def emit_def writeOutput_def shouldClose_def
  existsSync_def unlinkSync_def host_acts_def pollIpcDuringQuery_def extractResultText_def
  filter_Boolean_def join_def archiveConversation_def formatTranscriptMarkdown_def
  format_message_def generateFallbackName_def padStart2_def digit_char_def quote_def
  escape_char_def structured_fallback_def buildSystemContext_def heartbeat_def error_output_def
  IPC_INPUT_CLOSE_SENTINEL_def Let_def cannot_read_def sample_reply_def sample_input_def
  output_json_def OUTPUT_START_MARKER_def OUTPUT_END_MARKER_def drain_file_def readFileSync_def
  message_def sample_stdin_def no_engine_env_def abort_turn_def close_after_turn_def
  unparseable_def setup_fails_def context_of_def

section \<open>The mailbox\<close>

lemma map_of_unlinkSync: "g \<noteq> f \<Longrightarrow> map_of (unlinkSync d f) g = map_of d g"
  by (induction d) (auto simp: unlinkSync_def)

lemma unlinkSync_twice: "unlinkSync (unlinkSync d f) f = unlinkSync d f"
  by (simp add: unlinkSync_def)

lemma not_existsSync_unlinkSync: "\<not> existsSync (unlinkSync d f) f"
  by (auto simp: existsSync_def unlinkSync_def)

text \<open>
  What the loop of \<^verbatim>\<open>drainIpcInput\<close> does with one file that exists: it deletes the file,
  and it appends the \<^verbatim>\<open>text\<close> member when the file is a message and the member is truthy.
\<close>

lemma drain_file_payload:
  assumes "map_of d f = Some raw"
  shows "drain_file e (acc, d) f =
           (acc @ (case message_payload e raw of
                     None \<Rightarrow> []
                   | Some v \<Rightarrow> if truthy v then [v] else []),
            unlinkSync d f)"
proof (cases "JSON_parse e raw")
  case (Inl err)
  with assms show ?thesis
    by (simp add: drain_file_def readFileSync_def message_payload_def)
next
  case (Inr data)
  with assms show ?thesis
    by (cases data)
       (auto simp: drain_file_def readFileSync_def message_payload_def Let_def unlinkSync_twice
             split: option.splits)
qed

lemma drain_files_payloads:
  assumes "distinct fs"
    and "\<forall>f\<in>set fs. \<exists>raw. map_of d f = Some raw \<and> message_payload e raw = pl f"
  shows "foldl (drain_file e) (acc, d) fs =
           (acc @ [v. f \<leftarrow> fs, Some v \<leftarrow> [pl f], truthy v], filter (\<lambda>en. fst en \<notin> set fs) d)"
  using assms
proof (induction fs arbitrary: acc d)
  case Nil
  then show ?case by simp
next
  case (Cons f fs)
  from Cons.prems obtain raw
    where raw: "map_of d f = Some raw" "message_payload e raw = pl f"
    by auto
  have step: "drain_file e (acc, d) f =
                (acc @ (case pl f of None \<Rightarrow> [] | Some v \<Rightarrow> if truthy v then [v] else []),
                 unlinkSync d f)"
    using drain_file_payload[OF raw(1), of e acc] raw(2) by simp
  have rest: "\<forall>g\<in>set fs. \<exists>raw. map_of (unlinkSync d f) g = Some raw \<and> message_payload e raw = pl g"
  proof
    fix g assume g: "g \<in> set fs"
    with Cons.prems(1) have "g \<noteq> f" by auto
    then have "map_of (unlinkSync d f) g = map_of d g" by (rule map_of_unlinkSync)
    then show "\<exists>raw. map_of (unlinkSync d f) g = Some raw \<and> message_payload e raw = pl g"
      using Cons.prems(2) g by simp
  qed
  have "distinct fs" using Cons.prems by simp
  from Cons.IH[OF this rest]
  show ?case by (simp add: step unlinkSync_def conj_commute split: option.splits)
qed

text \<open>A well-formed message with the text \<open>t\<close> is a message whose payload is the string \<open>t\<close>.\<close>

lemma message_file_payload: "message_file e raw t = (message_payload e raw = Some (JStr t))"
  by (auto simp: message_file_def message_payload_def split: sum.splits json.splits)

text \<open>
  C4, as stated, at a file whose text is the empty string: the file is a well-formed
  message, and \<^verbatim>\<open>drainIpcInput\<close> returns no text for it, because \<^verbatim>\<open>data.text\<close> is falsy.
\<close>

theorem drain_empty_text_counterexample:
  "message_file (sample_env [message []]) (JSON_stringify (message [])) []
   \<and> fst (drainIpcInput (sample_env [message []]) [(''1.json'', JSON_stringify (message []))])
       \<noteq> [JStr []]"
  by (simp add: eval_defs message_file_def)

text \<open>
  C4, amended: when the names in the inbox are distinct, one call of \<^verbatim>\<open>drainIpcInput\<close>
  returns, in the sorted order of the file names, the \<^verbatim>\<open>text\<close> payload of every file whose
  name ends in \<^verbatim>\<open>.json\<close> and that is a message with a truthy payload (for a string: a
  non-empty one), and nothing else; afterwards no file whose name ends in \<^verbatim>\<open>.json\<close> is
  left, and the other files stay. So the well-formed messages with a non-empty text are all
  returned and removed, whatever else the inbox holds; a message whose text is empty and a
  \<^verbatim>\<open>.json\<close> file that is not a message are removed and add nothing.
\<close>

theorem drain_returns_all_sorted:
  assumes "distinct (map fst d)"
  shows "drainIpcInput e d =
           ([v. f \<leftarrow> sort (filter (\<lambda>f. endsWith f ''.json'') (map fst d)),
                Some raw \<leftarrow> [map_of d f], Some v \<leftarrow> [message_payload e raw], truthy v],
            filter (\<lambda>(f, raw). \<not> endsWith f ''.json'') d)"
proof -
  let ?fs = "sort (filter (\<lambda>f. endsWith f ''.json'') (map fst d))"
  let ?pl = "\<lambda>f. case map_of d f of None \<Rightarrow> None | Some raw \<Rightarrow> message_payload e raw"
  have dist: "distinct ?fs" using assms by (simp add: distinct_map_filter)
  have wf: "\<forall>f\<in>set ?fs. \<exists>raw. map_of d f = Some raw \<and> message_payload e raw = ?pl f"
  proof
    fix f assume "f \<in> set ?fs"
    then have "f \<in> fst ` set d" by auto
    then obtain raw where "(f, raw) \<in> set d" by auto
    with assms have "map_of d f = Some raw" by simp
    then show "\<exists>raw. map_of d f = Some raw \<and> message_payload e raw = ?pl f" by simp
  qed
  have left: "filter (\<lambda>en. fst en \<notin> set ?fs) d = filter (\<lambda>(f, raw). \<not> endsWith f ''.json'') d"
    by (rule filter_cong) (auto simp: rev_image_eqI)
  have texts: "[v. f \<leftarrow> ?fs, Some v \<leftarrow> [?pl f], truthy v]
                 = [v. f \<leftarrow> ?fs, Some raw \<leftarrow> [map_of d f], Some v \<leftarrow> [message_payload e raw], truthy v]"
    by (rule arg_cong[where f = concat], rule map_cong) (auto split: option.splits)
  show ?thesis
    using drain_files_payloads[OF dist wf, of "[]"] left texts
    by (simp add: drainIpcInput_def readdirSync_def)
qed

theorem drain_returns_all_sorted_witness:
  "distinct (map fst [(''2.json'', JSON_stringify (message ''two'')), (''note.txt'', ''x''),
                      (''bad.json'', ''{oops''), (''3.json'', JSON_stringify (message [])),
                      (''1.json'', JSON_stringify (message ''one''))])
   \<and> drainIpcInput (sample_env [message ''one'', message ''two'', message []])
        [(''2.json'', JSON_stringify (message ''two'')), (''note.txt'', ''x''),
         (''bad.json'', ''{oops''), (''3.json'', JSON_stringify (message [])),
         (''1.json'', JSON_stringify (message ''one''))]
       = ([JStr ''one'', JStr ''two''], [(''note.txt'', ''x'')])"
  using drain_returns_all_sorted[of
     "[(''2.json'', JSON_stringify (message ''two'')), (''note.txt'', ''x''),
       (''bad.json'', ''{oops''), (''3.json'', JSON_stringify (message [])),
       (''1.json'', JSON_stringify (message ''one''))]"
     "sample_env [message ''one'', message ''two'', message []]"]
  by (simp add: message_payload_def sample_env_def parse_among_def message_def endsWith_def
        quote_def escape_char_def)

text \<open>
  C6: if the sentinel file exists when \<^verbatim>\<open>waitForIpcMessage\<close> is called, the call resolves
  to \<^verbatim>\<open>null\<close> and the sentinel does not exist afterwards; and when this happens after a
  turn of the query loop, the loop is left with nothing added to the events but the
  heartbeat written before the wait, whatever the rest of the script is: no further
  prompt is submitted.
\<close>

theorem sentinel_ends_session:
  assumes "existsSync d IPC_INPUT_CLOSE_SENTINEL"
  shows "waitForIpcMessage e d batches = (Resolved None, unlinkSync d IPC_INPUT_CLOSE_SENTINEL)
       \<and> \<not> existsSync (unlinkSync d IPC_INPUT_CLOSE_SENTINEL) IPC_INPUT_CLOSE_SENTINEL
       \<and> (runQuery e sid p t w = (Resolved False, w') \<and> inbox w' = d \<and> after t = batches \<longrightarrow>
            query_loop e sid p msgs w (t # ts) =
              (Break, msgs @ [\<lparr>role = User, content = p\<rparr>],
               emit w' (writeOutput (heartbeat sid))\<lparr>inbox := unlinkSync d IPC_INPUT_CLOSE_SENTINEL\<rparr>))"
proof -
  have a: "waitForIpcMessage e d bs = (Resolved None, unlinkSync d IPC_INPUT_CLOSE_SENTINEL)" for bs
    using assms by (simp add: shouldClose_def)
  show ?thesis
    by (auto simp: a not_existsSync_unlinkSync emit_def Let_def simp del: waitForIpcMessage.simps)
qed

theorem sentinel_ends_session_witness:
  "existsSync [(''_close'', [])] IPC_INPUT_CLOSE_SENTINEL
   \<and> waitForIpcMessage (sample_env []) [(''_close'', [])] [] = (Resolved None, [])
   \<and> \<not> existsSync [] IPC_INPUT_CLOSE_SENTINEL
   \<and> runQuery (sample_env []) ''ses_1'' (Some ''hello'')
        \<lparr>during = [], settle = [PutFile ''_close'' []],
         reply = PromptResult (Some (sample_reply ''hi'')) None, after = []\<rparr>
        \<lparr>inbox = [], trace = []\<rparr>
       = (Resolved False,
          \<lparr>inbox = [(''_close'', [])],
           trace = SessionPrompt ''ses_1'' (JStr ''hello'') False
                   # writeOutput \<lparr>status = Success, result = Some ''hi'',
                                   newSessionId = Some ''ses_1'', error = None\<rparr>\<rparr>)
   \<and> query_loop (sample_env []) ''ses_1'' (Some ''hello'') [] \<lparr>inbox = [], trace = []\<rparr>
        [\<lparr>during = [], settle = [PutFile ''_close'' []],
          reply = PromptResult (Some (sample_reply ''hi'')) None, after = []\<rparr>,
         close_after_turn (PromptThrows ''never reached'')]
       = (Break, [\<lparr>role = User, content = Some ''hello''\<rparr>],
          \<lparr>inbox = [],
           trace = SessionPrompt ''ses_1'' (JStr ''hello'') False
                   # writeOutput \<lparr>status = Success, result = Some ''hi'',
                                   newSessionId = Some ''ses_1'', error = None\<rparr>
                   @ writeOutput (heartbeat ''ses_1'')\<rparr>)"
  using sentinel_ends_session[of "[(''_close'', [])]" "sample_env []" "[]" "''ses_1''" "Some ''hello''"
        "\<lparr>during = [], settle = [PutFile ''_close'' []],
          reply = PromptResult (Some (sample_reply ''hi'')) None, after = []\<rparr>"
        "\<lparr>inbox = [], trace = []\<rparr>"
        "\<lparr>inbox = [(''_close'', [])],
          trace = SessionPrompt ''ses_1'' (JStr ''hello'') False
                  # writeOutput \<lparr>status = Success, result = Some ''hi'',
                                  newSessionId = Some ''ses_1'', error = None\<rparr>\<rparr>"
        "[]" "[close_after_turn (PromptThrows ''never reached'')]"]
  by (simp add: eval_defs)

section \<open>Reply extraction\<close>

lemma js_prop_not_null: "p \<noteq> JNull \<Longrightarrow> js_prop p k = Inr (js_prop_opt (Some p) k)"
  by (cases p) simp_all

lemma text_typed_filter:
  "\<forall>p\<in>set ps. p \<noteq> JNull \<Longrightarrow> text_typed ps = Inr (filter text_typed_fragment ps)"
  by (induction ps) (simp_all add: js_prop_not_null text_typed_fragment_def)

lemma intercalate_empty: "intercalate [] xs = concat xs"
  by (induction xs rule: induct_list012) simp_all

lemma join_strings: "join (map JStr ts) [] = concat ts"
  by (simp add: join_def intercalate_empty comp_def)

lemma filter_Boolean_Cons:
  "filter_Boolean (x # xs) =
     (case x of None \<Rightarrow> [] | Some v \<Rightarrow> if truthy v then [v] else []) @ filter_Boolean xs"
  by (simp add: filter_Boolean_def split: option.splits)

lemma filter_Boolean_text:
  assumes "fragment_ok q" and "text_typed_fragment q"
  shows "(case js_prop_opt (Some q) ''text'' of
            None \<Rightarrow> []
          | Some v \<Rightarrow> if truthy v then [v] else [])
           = map JStr (filter (\<lambda>t. t \<noteq> []) [fragment_text q])"
proof (cases "js_prop_opt (Some q) ''text''")
  case None
  then show ?thesis by (simp add: fragment_text_def)
next
  case (Some v)
  with assms obtain t where "v = JStr t"
    by (cases v) (simp_all add: fragment_ok_def)
  with Some show ?thesis by (simp add: fragment_text_def)
qed

lemma filter_Boolean_texts:
  "\<forall>p\<in>set qs. fragment_ok p \<and> text_typed_fragment p \<Longrightarrow>
     filter_Boolean (map (\<lambda>p. js_prop_opt (Some p) ''text'') qs)
       = map JStr (filter (\<lambda>t. t \<noteq> []) (map fragment_text qs))"
proof (induction qs)
  case Nil
  then show ?case by (simp add: filter_Boolean_def)
next
  case (Cons q qs)
  then have "fragment_ok q" "text_typed_fragment q" by simp_all
  from filter_Boolean_text[OF this] Cons show ?case
    by (simp add: filter_Boolean_Cons)
qed

lemma concat_nonempty: "concat (filter (\<lambda>t. t \<noteq> []) ts) = concat ts"
  by (induction ts) simp_all

lemma filter_nonempty_iff: "(filter (\<lambda>t. t \<noteq> []) ts = []) = (concat ts = [])"
  by (induction ts) simp_all

text \<open>
  C9, as stated, at a response whose only fragment is typed \<^verbatim>\<open>text\<close> and has the empty
  text: a text-typed fragment exists, so the claim makes the reply the empty string, but
  \<^verbatim>\<open>filter(Boolean)\<close> drops the fragment and \<^verbatim>\<open>extractResultText\<close> returns \<^verbatim>\<open>null\<close>.
\<close>

theorem extract_empty_text_counterexample:
  "extractResultText (sample_reply []) \<noteq> Inr (claimed_reply_text (sample_reply []))"
  by (simp add: extractResultText_def claimed_reply_text_def parts_of_def text_typed_fragment_def
        filter_Boolean_def structured_fallback_def text_fragments_def fragment_text_def
        sample_reply_def)

text \<open>
  C9, amended: for a response whose fragments are as the engine's types describe them,
  the extracted reply is the in-order concatenation of the texts of all text-typed
  fragments when that concatenation is not empty; otherwise (no text-typed fragment, or
  only empty ones) it is the serialization of \<^verbatim>\<open>info.structured_output\<close> when that field is
  present and truthy; otherwise it is \<^verbatim>\<open>null\<close>. No exception is raised.
\<close>

theorem extract_reply_text:
  assumes "\<forall>p\<in>set (parts_of res). fragment_ok p"
  shows "extractResultText res =
           Inr (if concat (text_fragments (parts_of res)) \<noteq> []
                then Some (concat (text_fragments (parts_of res)))
                else (case js_prop_opt (js_prop_opt (Some res) ''info'') ''structured_output'' of
                        Some v \<Rightarrow> if truthy v then Some (JSON_stringify v) else None
                      | None \<Rightarrow> None))"
proof (cases "\<exists>ps. js_prop_opt (Some res) ''parts'' = Some (JArr ps)")
  case True
  then obtain ps where ps: "js_prop_opt (Some res) ''parts'' = Some (JArr ps)" by blast
  then have po: "parts_of res = ps" by (simp add: parts_of_def)
  with assms have ok: "\<forall>p\<in>set ps. fragment_ok p" by simp
  then have tt: "text_typed ps = Inr (filter text_typed_fragment ps)"
    by (intro text_typed_filter) (simp add: fragment_ok_def)
  have fb: "filter_Boolean (map (\<lambda>p. js_prop_opt (Some p) ''text'') (filter text_typed_fragment ps))
              = map JStr (filter (\<lambda>t. t \<noteq> []) (text_fragments ps))"
    unfolding text_fragments_def using ok by (intro filter_Boolean_texts) simp
  show ?thesis
    by (simp add: extractResultText_def ps po tt fb Let_def join_strings concat_nonempty
          filter_nonempty_iff structured_fallback_def)
next
  case False
  then have po: "parts_of res = []"
    by (auto simp: parts_of_def split: option.splits json.splits)
  from False have "extractResultText res = Inr (structured_fallback res)"
    by (auto simp: extractResultText_def split: option.splits json.splits)
  then show ?thesis
    by (simp add: po text_fragments_def structured_fallback_def)
qed

theorem extract_reply_text_witness:
  "extractResultText (JObj [(''parts'', JArr [JObj [(''type'', JStr ''text''), (''text'', JStr ''Hel'')],
                                              JObj [(''type'', JStr ''tool'')],
                                              JObj [(''type'', JStr ''text''), (''text'', JStr ''lo'')]])])
     = Inr (Some ''Hello'')"
  using extract_reply_text[of
     "JObj [(''parts'', JArr [JObj [(''type'', JStr ''text''), (''text'', JStr ''Hel'')],
                              JObj [(''type'', JStr ''tool'')],
                              JObj [(''type'', JStr ''text''), (''text'', JStr ''lo'')]])]"]
  by (simp add: parts_of_def fragment_ok_def text_typed_fragment_def text_fragments_def
        fragment_text_def)

section \<open>What a turn and the query loop add to the events and to the record\<close>

lemma inbox_emit [simp]: "inbox (emit w evs) = inbox w"
  by (simp add: emit_def)

lemma trace_emit [simp]: "trace (emit w evs) = trace w @ evs"
  by (simp add: emit_def)

lemma stdout_lines_append [simp]: "stdout_lines (xs @ ys) = stdout_lines xs @ stdout_lines ys"
  by (induction xs rule: stdout_lines.induct) simp_all

lemma stdout_lines_forwarded [simp]:
  "stdout_lines (map (\<lambda>text. SessionPrompt sid text True) ms) = []"
  by (induction ms) simp_all

lemma turn_event_writeOutput: "ev \<in> set (writeOutput out) \<Longrightarrow> turn_event ev"
  by (auto simp: writeOutput_def)

lemma pollIpcDuringQuery_trace:
  "\<exists>evs. trace (snd (pollIpcDuringQuery e sid w)) = trace w @ evs
         \<and> (\<forall>ev\<in>set evs. turn_event ev) \<and> stdout_lines evs = []"
  by (auto simp: pollIpcDuringQuery_def emit_def split: prod.splits bool.splits)

lemma poll_ticks_trace:
  "\<exists>evs. trace (snd (poll_ticks e sid w bs)) = trace w @ evs
         \<and> (\<forall>ev\<in>set evs. turn_event ev) \<and> stdout_lines evs = []"
proof (induction bs arbitrary: w)
  case Nil
  then show ?case by simp
next
  case (Cons b bs)
  let ?w = "w\<lparr>inbox := host_acts (inbox w) b\<rparr>"
  obtain c w' where p: "pollIpcDuringQuery e sid ?w = (c, w')"
    by (cases "pollIpcDuringQuery e sid ?w")
  from pollIpcDuringQuery_trace[of e sid ?w] p
  obtain evs where evs: "trace w' = trace w @ evs" "\<forall>ev\<in>set evs. turn_event ev"
    "stdout_lines evs = []"
    by auto
  show ?case
  proof (cases c)
    case True
    with p evs show ?thesis by auto
  next
    case False
    from Cons.IH[of w'] obtain evs' where
      "trace (snd (poll_ticks e sid w' bs)) = trace w' @ evs'" "\<forall>ev\<in>set evs'. turn_event ev"
      "stdout_lines evs' = []"
      by auto
    with p evs False show ?thesis by auto
  qed
qed

lemma turn_event_reply_events: "ev \<in> set (reply_events sid r) \<Longrightarrow> turn_event ev"
  by (auto simp: reply_events_def dest: turn_event_writeOutput
           split: prompt_reply.splits option.splits if_splits sum.splits)

lemma reply_events_failed:
  "failed_with r msg \<Longrightarrow> reply_events sid r = writeOutput (error_output sid msg)"
  by (cases r) (auto simp: reply_events_def split: option.splits)

lemma runQuery_trace:
  "\<exists>evs. trace (snd (runQuery e sid p t w)) = trace w @ evs \<and> (\<forall>ev\<in>set evs. turn_event ev)"
proof (cases p)
  case None
  then show ?thesis
    by (auto simp: runQuery_def emit_def dest: turn_event_writeOutput)
next
  case (Some q)
  let ?w = "emit w [SessionPrompt sid (JStr q) False]"
  obtain c w' where pt: "poll_ticks e sid ?w (during t) = (c, w')"
    by (cases "poll_ticks e sid ?w (during t)")
  from poll_ticks_trace[of e sid ?w "during t"] pt
  obtain evs where "trace w' = trace ?w @ evs" "\<forall>ev\<in>set evs. turn_event ev" by auto
  then show ?thesis using Some pt
    by (cases "reply t") (auto simp: runQuery_def emit_def Let_def dest: turn_event_reply_events)
qed

lemma runQuery_submits:
  "SessionPrompt sid (JStr p) False \<in> set (trace (snd (runQuery e sid (Some p) t w)))"
proof -
  let ?w = "emit w [SessionPrompt sid (JStr p) False]"
  obtain c w1 where pt: "poll_ticks e sid ?w (during t) = (c, w1)"
    by (cases "poll_ticks e sid ?w (during t)")
  from poll_ticks_trace[of e sid ?w "during t"] pt
  obtain evs where "trace w1 = trace ?w @ evs" by auto
  then show ?thesis using pt
    by (cases "reply t") (simp_all add: runQuery_def Let_def emit_def)
qed

lemma query_loop_trace:
  "\<exists>evs. trace (snd (snd (query_loop e sid p msgs w script))) = trace w @ evs
         \<and> (\<forall>ev\<in>set evs. turn_event ev)"
proof (induction script arbitrary: p msgs w)
  case Nil
  then show ?case by simp
next
  case (Cons t ts)
  obtain r w' where rq: "runQuery e sid p t w = (r, w')" by (cases "runQuery e sid p t w")
  from runQuery_trace[of e sid p t w] rq
  obtain evs where evs: "trace w' = trace w @ evs" "\<forall>ev\<in>set evs. turn_event ev" by auto
  let ?w'' = "emit w' (writeOutput (heartbeat sid))"
  obtain a d where wt: "waitForIpcMessage e (inbox ?w'') (after t) = (a, d)"
    by (cases "waitForIpcMessage e (inbox ?w'') (after t)")
  have hb: "trace (?w''\<lparr>inbox := d\<rparr>) = trace w @ (evs @ writeOutput (heartbeat sid))"
    "\<forall>ev\<in>set (evs @ writeOutput (heartbeat sid)). turn_event ev"
    using evs by (auto simp: emit_def dest: turn_event_writeOutput)
  show ?case
  proof (cases "\<exists>nxt. r = Resolved False \<and> a = Resolved (Some nxt)")
    case True
    then obtain nxt where nxt: "r = Resolved False" "a = Resolved (Some nxt)" by blast
    let ?msgs = "msgs @ [\<lparr>role = User, content = p\<rparr>]"
    from Cons.IH[of "Some nxt" ?msgs "?w''\<lparr>inbox := d\<rparr>"]
    obtain evs' where
      "trace (snd (snd (query_loop e sid (Some nxt) ?msgs (?w''\<lparr>inbox := d\<rparr>) ts)))
         = trace (?w''\<lparr>inbox := d\<rparr>) @ evs'" "\<forall>ev\<in>set evs'. turn_event ev"
      by auto
    with nxt rq wt hb
    have "trace (snd (snd (query_loop e sid p msgs w (t # ts))))
            = trace w @ ((evs @ writeOutput (heartbeat sid)) @ evs')"
      "\<forall>ev\<in>set ((evs @ writeOutput (heartbeat sid)) @ evs'). turn_event ev"
      by (auto simp: Let_def simp del: waitForIpcMessage.simps)
    then show ?thesis by blast
  next
    case False
    with rq wt have "snd (snd (query_loop e sid p msgs w (t # ts))) = w'
        \<or> snd (snd (query_loop e sid p msgs w (t # ts))) = ?w''\<lparr>inbox := d\<rparr>"
      by (auto simp: Let_def simp del: waitForIpcMessage.simps
            split: awaited.splits bool.splits option.splits)
    with evs hb show ?thesis by metis
  qed
qed

lemma query_loop_submits:
  "SessionPrompt sid (JStr p) False
     \<in> set (trace (snd (snd (query_loop e sid (Some p) msgs w (t # ts)))))"
proof -
  obtain r w' where rq: "runQuery e sid (Some p) t w = (r, w')"
    by (cases "runQuery e sid (Some p) t w")
  with runQuery_submits[of sid p e t w]
  have in_w': "SessionPrompt sid (JStr p) False \<in> set (trace w')" by simp
  let ?w'' = "emit w' (writeOutput (heartbeat sid))"
  obtain a d where wt: "waitForIpcMessage e (inbox ?w'') (after t) = (a, d)"
    by (cases "waitForIpcMessage e (inbox ?w'') (after t)")
  have ext: "SessionPrompt sid (JStr p) False
               \<in> set (trace (snd (snd (query_loop e sid q ms (?w''\<lparr>inbox := d\<rparr>) ts))))" for q ms
    using query_loop_trace[of e sid q ms "?w''\<lparr>inbox := d\<rparr>" ts] in_w'
    by (auto simp: emit_def)
  show ?thesis using rq wt in_w' ext
    by (auto simp: Let_def emit_def simp del: waitForIpcMessage.simps
          split: awaited.splits bool.splits option.splits)
qed

text \<open>The loop only ever appends entries with the role \<^verbatim>\<open>user\<close>, at least one per iteration.\<close>

lemma query_loop_messages:
  "\<exists>ms. fst (snd (query_loop e sid p msgs w script)) = msgs @ ms
        \<and> (script \<noteq> [] \<longrightarrow> ms \<noteq> []) \<and> (\<forall>m\<in>set ms. role m = User)"
proof (induction script arbitrary: p msgs w)
  case Nil
  then show ?case by simp
next
  case (Cons t ts)
  let ?u = "\<lparr>role = User, content = p\<rparr>"
  obtain r w' where rq: "runQuery e sid p t w = (r, w')" by (cases "runQuery e sid p t w")
  let ?w'' = "emit w' (writeOutput (heartbeat sid))"
  obtain a d where wt: "waitForIpcMessage e (inbox ?w'') (after t) = (a, d)"
    by (cases "waitForIpcMessage e (inbox ?w'') (after t)")
  show ?case
  proof (cases "\<exists>nxt. r = Resolved False \<and> a = Resolved (Some nxt)")
    case True
    then obtain nxt where nxt: "r = Resolved False" "a = Resolved (Some nxt)" by blast
    from Cons.IH[of "Some nxt" "msgs @ [?u]" "?w''\<lparr>inbox := d\<rparr>"]
    obtain ms where
      "fst (snd (query_loop e sid (Some nxt) (msgs @ [?u]) (?w''\<lparr>inbox := d\<rparr>) ts))
         = (msgs @ [?u]) @ ms"
      "\<forall>m\<in>set ms. role m = User"
      by auto
    with nxt rq wt show ?thesis
      by (simp add: Let_def del: waitForIpcMessage.simps)
  next
    case False
    with rq wt have "fst (snd (query_loop e sid p msgs w (t # ts))) = msgs @ [?u]"
      by (auto simp: Let_def simp del: waitForIpcMessage.simps
            split: awaited.splits bool.splits option.splits)
    then show ?thesis by simp
  qed
qed

section \<open>The whole run\<close>

lemma obtain_session_events:
  "CloseServer \<notin> set (fst (obtain_session e ci)) \<and> stdout_lines (fst (obtain_session e ci)) = []"
  by (auto simp: obtain_session_def Let_def
       split: option.splits get_reply.splits create_reply.splits bool.splits)

lemma query_loop_no_teardown:
  assumes "CloseServer \<notin> set (trace w)"
  shows "CloseServer \<notin> set (trace (snd (snd (query_loop e sid p msgs w script))))"
proof -
  from query_loop_trace[of e sid p msgs w script]
  obtain evs where "trace (snd (snd (query_loop e sid p msgs w script))) = trace w @ evs"
    "\<forall>ev\<in>set evs. turn_event ev" by auto
  with assms show ?thesis by auto
qed

text \<open>
  Once the session exists, the run either leaves the loop, tears down and exits with
  status 0, having recorded at least one entry, all of them user entries; or it does not
  end and has not torn down.
\<close>

lemma run_session_cases:
  assumes "CloseServer \<notin> set (trace w)"
  shows "(outcome (run_session e ci sid w script) = Exited 0
            \<and> messages (run_session e ci sid w script) \<noteq> []
            \<and> CloseServer \<in> set (trace (final (run_session e ci sid w script)))
            \<and> set (archiveConversation e (messages (run_session e ci sid w script))
                      (assistantName ci) None)
                \<subseteq> set (trace (final (run_session e ci sid w script))))
         \<or> ((\<exists>l. outcome (run_session e ci sid w script) = Waiting l)
            \<and> CloseServer \<notin> set (trace (final (run_session e ci sid w script))))"
proof -
  obtain pending d' where dr: "drainIpcInput e (inbox w) = (pending, d')"
    by (cases "drainIpcInput e (inbox w)")
  let ?q = "query_loop e sid (initial_prompt ci pending) [] (w\<lparr>inbox := d'\<rparr>) script"
  obtain l msgs w' where q: "?q = (l, msgs, w')" by (cases ?q)
  have nt: "CloseServer \<notin> set (trace w')"
    using query_loop_no_teardown[of "w\<lparr>inbox := d'\<rparr>" e sid "initial_prompt ci pending" "[]" script]
      assms q
    by simp
  have ne: "l = Break \<Longrightarrow> msgs \<noteq> []"
    using query_loop_messages[of e sid "initial_prompt ci pending" "[]" "w\<lparr>inbox := d'\<rparr>" script] q
    by (cases script) auto
  show ?thesis
    using dr q nt ne by (cases l) (auto simp: run_session_def)
qed

lemma run_session_roles: "\<forall>m\<in>set (messages (run_session e ci sid w script)). role m = User"
proof -
  obtain pending d' where dr: "drainIpcInput e (inbox w) = (pending, d')"
    by (cases "drainIpcInput e (inbox w)")
  let ?q = "query_loop e sid (initial_prompt ci pending) [] (w\<lparr>inbox := d'\<rparr>) script"
  obtain l msgs w' where q: "?q = (l, msgs, w')" by (cases ?q)
  have "\<forall>m\<in>set msgs. role m = User"
    using query_loop_messages[of e sid "initial_prompt ci pending" "[]" "w\<lparr>inbox := d'\<rparr>" script] q
    by auto
  then show ?thesis
    using dr q by (cases l) (simp_all add: run_session_def)
qed

lemma initial_prompt_defined: "prompt ci = Some p \<Longrightarrow> \<exists>p'. initial_prompt ci pending = Some p'"
  by (simp add: initial_prompt_def Let_def)

lemma run_session_submits:
  assumes "prompt ci = Some p" and "script \<noteq> []"
  shows "\<exists>p'. SessionPrompt sid (JStr p') False \<in> set (trace (final (run_session e ci sid w script)))"
proof -
  obtain pending d' where dr: "drainIpcInput e (inbox w) = (pending, d')"
    by (cases "drainIpcInput e (inbox w)")
  from initial_prompt_defined[OF assms(1)]
  obtain p' where p': "initial_prompt ci pending = Some p'" by blast
  from assms(2) obtain t ts where sc: "script = t # ts" by (cases script) auto
  let ?q = "query_loop e sid (Some p') [] (w\<lparr>inbox := d'\<rparr>) (t # ts)"
  obtain l msgs w' where q: "?q = (l, msgs, w')" by (cases ?q)
  with query_loop_submits[of sid p' e "[]" "w\<lparr>inbox := d'\<rparr>" t ts]
  have "SessionPrompt sid (JStr p') False \<in> set (trace w')" by simp
  then have "SessionPrompt sid (JStr p') False \<in> set (trace (final (run_session e ci sid w script)))"
    using dr p' sc q by (cases l) (simp_all add: run_session_def emit_def del: query_loop.simps)
  then show ?thesis by blast
qed

lemma main_unparseable:
  assumes "unparseable e s"
  shows "\<exists>msg. main e d s script =
           \<lparr>outcome = Exited 1,
            final = \<lparr>inbox = d,
                     trace = writeOutput \<lparr>status = Error, result = None, newSessionId = None,
                                          error = Some (''Failed to parse input: '' @ msg)\<rparr>\<rparr>,
            messages = []\<rparr>"
  using assms by (auto simp: unparseable_def main_def split: sum.splits)

lemma main_setup_fails:
  assumes "\<not> unparseable e s" and "setup_fails e s"
  shows "\<exists>msg w. main e d s script = \<lparr>outcome = Uncaught msg, final = w, messages = []\<rparr>
           \<and> CloseServer \<notin> set (trace w) \<and> stdout_lines (trace w) = []"
proof -
  from assms(1) obtain v where v: "JSON_parse e s = Inr v" "v \<noteq> JNull"
    by (auto simp: unparseable_def split: sum.splits)
  let ?ci = "as_ContainerInput v"
  have gf: "js_prop v ''groupFolder'' = Inr (js_prop_opt (Some v) ''groupFolder'')"
    using v(2) by (rule js_prop_not_null)
  obtain evs r where r: "obtain_session e ?ci = (evs, r)" by (cases "obtain_session e ?ci")
  have evs: "CloseServer \<notin> set evs" "stdout_lines evs = []"
    using obtain_session_events[of e ?ci] r by simp_all
  show ?thesis
  proof (cases "createOpencode e")
    case (Some msg)
    with v gf show ?thesis by (simp add: main_def Let_def)
  next
    case None
    note co = this
    show ?thesis
    proof (cases r)
      case (Inl msg)
      with v gf co r evs show ?thesis by (simp add: main_def Let_def emit_def)
    next
      case (Inr sid)
      with assms(2) v co r obtain c msg where c: "context_of e = Some c" "inject_reply e = Some msg"
        by (auto simp: setup_fails_def)
      with v gf co r Inr evs show ?thesis
        by (auto simp: main_def Let_def emit_def context_of_def split: option.splits if_splits)
    qed
  qed
qed

lemma main_after_setup:
  assumes "\<not> unparseable e s" and "\<not> setup_fails e s"
  shows "\<exists>v sid w. JSON_parse e s = Inr v
           \<and> main e d s script = run_session e (as_ContainerInput v) sid w script
           \<and> CloseServer \<notin> set (trace w)
           \<and> inbox w = unlinkSync d IPC_INPUT_CLOSE_SENTINEL"
proof -
  from assms(1) obtain v where v: "JSON_parse e s = Inr v" "v \<noteq> JNull"
    by (auto simp: unparseable_def split: sum.splits)
  let ?ci = "as_ContainerInput v"
  let ?w0 = "\<lparr>inbox = unlinkSync d IPC_INPUT_CLOSE_SENTINEL, trace = [StartServer]\<rparr>"
  from assms(2) v have co: "createOpencode e = None"
    and os: "\<not> isl (snd (obtain_session e ?ci))"
    and inj: "context_of e = None \<or> inject_reply e = None"
    by (auto simp: setup_fails_def)
  obtain evs r where r: "obtain_session e ?ci = (evs, r)" by (cases "obtain_session e ?ci")
  with os obtain sid where sid: "r = Inr sid" by (cases r) auto
  have evs: "CloseServer \<notin> set evs" using obtain_session_events[of e ?ci] r by simp
  have gf: "js_prop v ''groupFolder'' = Inr (js_prop_opt (Some v) ''groupFolder'')"
    using v(2) by (rule js_prop_not_null)
  show ?thesis
  proof (cases "context_of e")
    case None
    then have "main e d s script = run_session e ?ci sid (emit ?w0 evs) script"
      using v gf co r sid
      by (auto simp: main_def Let_def context_of_def split: option.splits if_splits)
    moreover have "CloseServer \<notin> set (trace (emit ?w0 evs))" using evs by (simp add: emit_def)
    moreover have "inbox (emit ?w0 evs) = unlinkSync d IPC_INPUT_CLOSE_SENTINEL" by simp
    ultimately show ?thesis using v by blast
  next
    case (Some c)
    with inj have "inject_reply e = None" by simp
    with Some have "main e d s script
        = run_session e ?ci sid (emit (emit ?w0 evs) [SessionPrompt sid (JStr c) True]) script"
      using v gf co r sid
      by (auto simp: main_def Let_def context_of_def split: option.splits if_splits)
    moreover have "CloseServer \<notin> set (trace (emit (emit ?w0 evs) [SessionPrompt sid (JStr c) True]))"
      using evs by (simp add: emit_def)
    moreover have "inbox (emit (emit ?w0 evs) [SessionPrompt sid (JStr c) True])
                     = unlinkSync d IPC_INPUT_CLOSE_SENTINEL" by simp
    ultimately show ?thesis using v by blast
  qed
qed

text \<open>Whatever the run, the record holds user entries only.\<close>

lemma main_records_user_entries_only: "\<forall>m\<in>set (messages (main e d s script)). role m = User"
proof (cases "unparseable e s")
  case True
  from main_unparseable[OF this, of d script] show ?thesis by auto
next
  case False
  show ?thesis
  proof (cases "setup_fails e s")
    case True
    from main_setup_fails[OF False this, of d script] show ?thesis by auto
  next
    case sf: False
    from main_after_setup[OF False sf, of d script]
    obtain v sid w where "main e d s script = run_session e (as_ContainerInput v) sid w script"
      by blast
    with run_session_roles[of e "as_ContainerInput v" sid w script] show ?thesis by simp
  qed
qed

text \<open>
  C1, evaluated at a run whose only turn succeeds with the reply \<^verbatim>\<open>hi\<close> and which is then
  closed: the success envelope with the text \<^verbatim>\<open>hi\<close> and the heartbeat are written, and
  the record handed to \<^verbatim>\<open>archiveConversation\<close> holds the user entry alone. No assistant
  entry is appended for the successful turn.
\<close>

theorem successful_turn_not_recorded:
  "messages (main (sample_env [sample_input]) [] sample_stdin
               [close_after_turn (PromptResult (Some (sample_reply ''hi'')) None)])
     = [\<lparr>role = User, content = Some ''hello''\<rparr>]
   \<and> stdout_lines (trace (final (main (sample_env [sample_input]) [] sample_stdin
               [close_after_turn (PromptResult (Some (sample_reply ''hi'')) None)])))
     = stdout_lines (writeOutput \<lparr>status = Success, result = Some ''hi'',
                                   newSessionId = Some ''ses_1'', error = None\<rparr>
                     @ writeOutput (heartbeat ''ses_1''))"
  by (simp add: eval_defs)

text \<open>
  C2, as stated, at the input document \<^verbatim>\<open>{}\<close>, which parses and has neither \<^verbatim>\<open>prompt\<close> nor
  \<^verbatim>\<open>groupFolder\<close>: a session is created, the first envelope carries the session id, and the
  process exits with status 0 once the host closes the session.
\<close>

theorem missing_fields_counterexample:
  "JSON_parse (sample_env [JObj []]) ''{}'' = Inr (JObj [])
   \<and> prompt (as_ContainerInput (JObj [])) = None
   \<and> groupFolder (as_ContainerInput (JObj [])) = None
   \<and> outcome (main (sample_env [JObj []]) [] ''{}'' [close_after_turn PromptNever]) = Exited 0
   \<and> trace (final (main (sample_env [JObj []]) [] ''{}'' [close_after_turn PromptNever]))
       = [StartServer, SessionCreate ''nanoclaw-undefined'']
         @ writeOutput (error_output ''ses_1'' (cannot_read ''undefined'' ''length''))
         @ writeOutput (heartbeat ''ses_1'') @ [CloseServer]"
  by (simp add: eval_defs)

text \<open>
  C2, amended: for every standard-input document that fails to parse as JSON, or that
  parses to \<^verbatim>\<open>null\<close>, the process writes exactly one envelope, an error envelope without
  session id, makes no call to the engine, leaves the inbox as it found it and exits with
  status 1.
\<close>

theorem malformed_input_exits:
  assumes "unparseable e s"
  shows "\<exists>msg. main e d s script =
           \<lparr>outcome = Exited 1,
            final = \<lparr>inbox = d,
                     trace = writeOutput \<lparr>status = Error, result = None, newSessionId = None,
                                          error = Some (''Failed to parse input: '' @ msg)\<rparr>\<rparr>,
            messages = []\<rparr>"
  using assms by (rule main_unparseable)

theorem malformed_input_exits_witness:
  "unparseable (sample_env []) ''{oops''
   \<and> (\<exists>msg. main (sample_env []) [(''1.json'', ''x'')] ''{oops'' [] =
           \<lparr>outcome = Exited 1,
            final = \<lparr>inbox = [(''1.json'', ''x'')],
                     trace = writeOutput \<lparr>status = Error, result = None, newSessionId = None,
                                          error = Some (''Failed to parse input: '' @ msg)\<rparr>\<rparr>,
            messages = []\<rparr>)"
  using malformed_input_exits[of "sample_env []" "''{oops''" "[(''1.json'', ''x'')]" "[]"]
  by (simp add: unparseable_def sample_env_def parse_among_def)

text \<open>
  The exit status over all runs: it is 0 when the teardown is reached, and it is non-zero
  only when the input document cannot be used or one of the engine calls before the query
  loop throws. The file-system calls between the parse and the loop (writing
  \<^verbatim>\<open>opencode.json\<close>, creating the inbox directory, reading the global context file) are
  outside every \<^verbatim>\<open>try\<close> as well; they are taken to succeed here.
\<close>

lemma exit_status_cases:
  "(CloseServer \<in> set (trace (final (main e d s script)))
      \<longrightarrow> exit_status (outcome (main e d s script)) = Some 0)
   \<and> ((\<exists>n. exit_status (outcome (main e d s script)) = Some n \<and> n \<noteq> 0)
        \<longrightarrow> unparseable e s \<or> setup_fails e s)"
proof (cases "unparseable e s")
  case True
  from main_unparseable[OF this, of d script] True show ?thesis
    by (auto simp: writeOutput_def)
next
  case False
  show ?thesis
  proof (cases "setup_fails e s")
    case True
    from main_setup_fails[OF False this, of d script] True show ?thesis by auto
  next
    case sf: False
    from main_after_setup[OF False sf, of d script]
    obtain v sid w where m: "main e d s script = run_session e (as_ContainerInput v) sid w script"
      "CloseServer \<notin> set (trace w)" by blast
    from run_session_cases[OF m(2), of e "as_ContainerInput v" sid script] m(1) False sf
    show ?thesis by auto
  qed
qed

text \<open>
  C3, evaluated at an engine that refuses to create the session: the input document
  parses, the error leaves \<^verbatim>\<open>main\<close> with nothing that handles it, and the process ends
  with exit status 1; no envelope is written and the teardown is not reached. When the
  same engine fails one call later, on the first prompt, the failure is reported by an
  error envelope, the teardown is reached and the exit status is 0.
\<close>

theorem creation_failure_unreported:
  "JSON_parse no_engine_env sample_stdin = Inr sample_input
   \<and> main no_engine_env [] sample_stdin [] =
       \<lparr>outcome = Uncaught ''engine unavailable'',
        final = \<lparr>inbox = [], trace = [StartServer, SessionCreate ''nanoclaw-g1'']\<rparr>,
        messages = []\<rparr>
   \<and> exit_status (outcome (main no_engine_env [] sample_stdin [])) = Some 1
   \<and> stdout_lines (trace (final (main no_engine_env [] sample_stdin []))) = []
   \<and> outcome (main (sample_env [sample_input]) [] sample_stdin
                 [close_after_turn (PromptThrows ''engine unavailable'')]) = Exited 0
   \<and> stdout_lines (trace (final (main (sample_env [sample_input]) [] sample_stdin
                 [close_after_turn (PromptThrows ''engine unavailable'')])))
       = stdout_lines (writeOutput (error_output ''ses_1'' ''engine unavailable'')
                       @ writeOutput (heartbeat ''ses_1''))
   \<and> last (trace (final (main (sample_env [sample_input]) [] sample_stdin
                 [close_after_turn (PromptThrows ''engine unavailable'')]))) = CloseServer"
  by (simp add: eval_defs)

text \<open>
  C5, as stated, at a turn during which the poller sees the sentinel and whose
  foreground call then throws: the error envelope is the only envelope written, no
  heartbeat follows, and the process exits with status 0 while the next message is
  still in the inbox.
\<close>

theorem failed_turn_counterexample:
  "reply abort_turn = PromptThrows ''aborted''
   \<and> outcome (main (sample_env [sample_input, message ''next'']) [] sample_stdin [abort_turn])
       = Exited 0
   \<and> inbox (final (main (sample_env [sample_input, message ''next'']) [] sample_stdin [abort_turn]))
       = [(''2.json'', JSON_stringify (message ''next''))]
   \<and> stdout_lines (trace (final (main (sample_env [sample_input, message ''next'']) []
                                    sample_stdin [abort_turn])))
       = stdout_lines (writeOutput (error_output ''ses_1'' ''aborted''))"
  by (simp add: eval_defs)

text \<open>
  C5, amended: for every turn in which the foreground engine call fails (it throws, or
  it returns no data and an error), \<^verbatim>\<open>runQuery\<close> writes exactly one envelope, with status
  error, null text, the current session id and the failure description. Unless the
  poller has seen the sentinel during the turn, the loop then writes the heartbeat and
  waits for the next mailbox message: it blocks while none comes, leaves when the
  sentinel comes, and starts the next turn with the message that comes. When the poller
  has seen the sentinel during the turn, the loop is left at once.
\<close>

theorem failed_turn_reported:
  assumes "failed_with (reply t) msg"
    and "poll_ticks e sid (emit w [SessionPrompt sid (JStr p) False]) (during t) = (closed, w1)"
  shows "\<exists>w'. runQuery e sid (Some p) t w = (Resolved closed, w')
           \<and> trace w' = trace w1 @ writeOutput (error_output sid msg)
           \<and> stdout_lines (trace w')
               = stdout_lines (trace w) @ stdout_lines (writeOutput (error_output sid msg))
           \<and> (\<not> closed \<longrightarrow>
                query_loop e sid (Some p) msgs w (t # ts) =
                  (case waitForIpcMessage e (inbox w') (after t) of
                     (Pending, d) \<Rightarrow>
                       (Blocked, msgs @ [\<lparr>role = User, content = Some p\<rparr>],
                        emit w' (writeOutput (heartbeat sid))\<lparr>inbox := d\<rparr>)
                   | (Resolved None, d) \<Rightarrow>
                       (Break, msgs @ [\<lparr>role = User, content = Some p\<rparr>],
                        emit w' (writeOutput (heartbeat sid))\<lparr>inbox := d\<rparr>)
                   | (Resolved (Some nextMessage), d) \<Rightarrow>
                       query_loop e sid (Some nextMessage)
                         (msgs @ [\<lparr>role = User, content = Some p\<rparr>])
                         (emit w' (writeOutput (heartbeat sid))\<lparr>inbox := d\<rparr>) ts))
           \<and> (closed \<longrightarrow>
                query_loop e sid (Some p) msgs w (t # ts) =
                  (Break, msgs @ [\<lparr>role = User, content = Some p\<rparr>], w'))"
proof -
  let ?w' = "emit (w1\<lparr>inbox := host_acts (inbox w1) (settle t)\<rparr>)
               (writeOutput (error_output sid msg))"
  from assms(1) have nn: "reply t \<noteq> PromptNever" by auto
  have rq: "runQuery e sid (Some p) t w = (Resolved closed, ?w')"
    using assms(2) nn reply_events_failed[OF assms(1), of sid]
    by (cases "reply t") (simp_all add: runQuery_def Let_def)
  from poll_ticks_trace[of e sid "emit w [SessionPrompt sid (JStr p) False]" "during t"] assms(2)
  obtain evs where evs: "trace w1 = trace w @ [SessionPrompt sid (JStr p) False] @ evs"
    "stdout_lines evs = []"
    by (auto simp: emit_def)
  have tr: "trace ?w' = trace w1 @ writeOutput (error_output sid msg)" by (simp add: emit_def)
  have so: "stdout_lines (trace ?w')
              = stdout_lines (trace w) @ stdout_lines (writeOutput (error_output sid msg))"
    using evs by (simp add: tr)
  have lp: "\<not> closed \<Longrightarrow> query_loop e sid (Some p) msgs w (t # ts) =
                  (case waitForIpcMessage e (inbox ?w') (after t) of
                     (Pending, d) \<Rightarrow>
                       (Blocked, msgs @ [\<lparr>role = User, content = Some p\<rparr>],
                        emit ?w' (writeOutput (heartbeat sid))\<lparr>inbox := d\<rparr>)
                   | (Resolved None, d) \<Rightarrow>
                       (Break, msgs @ [\<lparr>role = User, content = Some p\<rparr>],
                        emit ?w' (writeOutput (heartbeat sid))\<lparr>inbox := d\<rparr>)
                   | (Resolved (Some nextMessage), d) \<Rightarrow>
                       query_loop e sid (Some nextMessage)
                         (msgs @ [\<lparr>role = User, content = Some p\<rparr>])
                         (emit ?w' (writeOutput (heartbeat sid))\<lparr>inbox := d\<rparr>) ts)"
    using rq by (simp add: Let_def del: waitForIpcMessage.simps)
  have br: "closed \<Longrightarrow> query_loop e sid (Some p) msgs w (t # ts) =
                  (Break, msgs @ [\<lparr>role = User, content = Some p\<rparr>], ?w')"
    using rq by (simp add: Let_def del: waitForIpcMessage.simps)
  show ?thesis using rq tr so lp br by blast
qed

theorem failed_turn_reported_witness:
  "failed_with (reply (close_after_turn (PromptThrows ''boom''))) ''boom''
   \<and> poll_ticks (sample_env []) ''ses_1''
        (emit \<lparr>inbox = [], trace = []\<rparr> [SessionPrompt ''ses_1'' (JStr ''hello'') False])
        (during (close_after_turn (PromptThrows ''boom'')))
       = (False, \<lparr>inbox = [], trace = [SessionPrompt ''ses_1'' (JStr ''hello'') False]\<rparr>)
   \<and> runQuery (sample_env []) ''ses_1'' (Some ''hello'') (close_after_turn (PromptThrows ''boom''))
        \<lparr>inbox = [], trace = []\<rparr>
       = (Resolved False,
          \<lparr>inbox = [], trace = SessionPrompt ''ses_1'' (JStr ''hello'') False
                                # writeOutput (error_output ''ses_1'' ''boom'')\<rparr>)
   \<and> query_loop (sample_env []) ''ses_1'' (Some ''hello'') [] \<lparr>inbox = [], trace = []\<rparr>
        [close_after_turn (PromptThrows ''boom'')]
       = (Break, [\<lparr>role = User, content = Some ''hello''\<rparr>],
          \<lparr>inbox = [], trace = SessionPrompt ''ses_1'' (JStr ''hello'') False
                                # writeOutput (error_output ''ses_1'' ''boom'')
                                @ writeOutput (heartbeat ''ses_1'')\<rparr>)
   \<and> failed_with (reply abort_turn) ''aborted''
   \<and> poll_ticks (sample_env []) ''ses_1''
        (emit \<lparr>inbox = [], trace = []\<rparr> [SessionPrompt ''ses_1'' (JStr ''hello'') False])
        (during abort_turn)
       = (True, \<lparr>inbox = [(''2.json'', JSON_stringify (message ''next''))],
                 trace = [SessionPrompt ''ses_1'' (JStr ''hello'') False, SessionAbort ''ses_1'']\<rparr>)
   \<and> query_loop (sample_env []) ''ses_1'' (Some ''hello'') [] \<lparr>inbox = [], trace = []\<rparr>
        [abort_turn, close_after_turn (PromptThrows ''never reached'')]
       = (Break, [\<lparr>role = User, content = Some ''hello''\<rparr>],
          \<lparr>inbox = [(''2.json'', JSON_stringify (message ''next''))],
           trace = [SessionPrompt ''ses_1'' (JStr ''hello'') False, SessionAbort ''ses_1'']
                   @ writeOutput (error_output ''ses_1'' ''aborted'')\<rparr>)"
  using failed_turn_reported[of "close_after_turn (PromptThrows ''boom'')" "''boom''" "sample_env []"
        "''ses_1''" "\<lparr>inbox = [], trace = []\<rparr>" "''hello''" False
        "\<lparr>inbox = [], trace = [SessionPrompt ''ses_1'' (JStr ''hello'') False]\<rparr>" "[]" "[]"]
    failed_turn_reported[of abort_turn "''aborted''" "sample_env []"
        "''ses_1''" "\<lparr>inbox = [], trace = []\<rparr>" "''hello''" True
        "\<lparr>inbox = [(''2.json'', JSON_stringify (message ''next''))],
          trace = [SessionPrompt ''ses_1'' (JStr ''hello'') False, SessionAbort ''ses_1'']\<rparr>"
        "[]" "[close_after_turn (PromptThrows ''never reached'')]"]
  by (simp add: eval_defs)

text \<open>
  C7, as stated, at a run that is closed during its first turn, before any turn
  completes: the record already holds the first prompt, and the archiver writes the
  transcript file.
\<close>

theorem immediate_close_counterexample:
  "messages (main (sample_env [sample_input, message ''next'']) [] sample_stdin [abort_turn])
     = [\<lparr>role = User, content = Some ''hello''\<rparr>]
   \<and> trace (final (main (sample_env [sample_input, message ''next'']) [] sample_stdin [abort_turn]))
     = [StartServer, SessionCreate ''nanoclaw-g1'',
        SessionPrompt ''ses_1'' (JStr ''hello'') False, SessionAbort ''ses_1'']
       @ writeOutput (error_output ''ses_1'' ''aborted'')
       @ [WriteFile ''/workspace/group/conversations/2026-03-01-conversation-0905.md''
            (''# Conversation'' @ [CHR 0x0A, CHR 0x0A] @ ''Archived: Mar 1, 9:05 AM''
              @ [CHR 0x0A, CHR 0x0A] @ ''---'' @ [CHR 0x0A, CHR 0x0A] @ ''**User**: hello''
              @ [CHR 0x0A]),
          CloseServer]"
  by (simp add: eval_defs)

lemma format_messages_defined:
  "\<forall>m\<in>set msgs. content m \<noteq> None \<Longrightarrow> \<exists>ls. format_messages an msgs = Inr ls"
  by (induction msgs) (auto simp: format_message_def Let_def)

lemma archive_writes:
  assumes "msgs \<noteq> []" and "archive_io_error e = None" and "\<forall>m\<in>set msgs. content m \<noteq> None"
  shows "\<exists>path md. archiveConversation e msgs an summary = [WriteFile path md]"
proof -
  from format_messages_defined[OF assms(3), of an]
  obtain ls where "format_messages an msgs = Inr ls" by blast
  then show ?thesis
    using assms(1,2) by (simp add: archiveConversation_def formatTranscriptMarkdown_def Let_def)
qed

text \<open>
  C7, amended: archiving an empty record is a no-op on the file system; and the record
  of a run that reaches the teardown is never empty, because the prompt of a turn is
  recorded before the turn is run, so that the archiver writes the transcript file
  (unless the write fails or the input had no prompt) also for a run that is closed before
  any turn completes.
\<close>

theorem archive_empty_record:
  "archiveConversation e [] an summary = []
   \<and> (outcome (main e d s script) = Exited 0 \<longrightarrow>
        messages (main e d s script) \<noteq> []
        \<and> (archive_io_error e = None \<and> (\<forall>m\<in>set (messages (main e d s script)). content m \<noteq> None)
            \<longrightarrow> (\<exists>path md. WriteFile path md \<in> set (trace (final (main e d s script))))))"
proof (cases "unparseable e s")
  case True
  from main_unparseable[OF this, of d script] show ?thesis
    by (auto simp: archiveConversation_def)
next
  case False
  show ?thesis
  proof (cases "setup_fails e s")
    case True
    from main_setup_fails[OF False this, of d script] show ?thesis
      by (auto simp: archiveConversation_def)
  next
    case sf: False
    from main_after_setup[OF False sf, of d script]
    obtain v sid w where m: "main e d s script = run_session e (as_ContainerInput v) sid w script"
      "CloseServer \<notin> set (trace w)" by blast
    let ?r = "run_session e (as_ContainerInput v) sid w script"
    have "\<exists>path md. WriteFile path md \<in> set (trace (final ?r))"
      if ex: "outcome ?r = Exited 0" and io: "archive_io_error e = None"
        and df: "\<forall>m\<in>set (messages ?r). content m \<noteq> None"
    proof -
      from run_session_cases[OF m(2), of e "as_ContainerInput v" sid script] ex
      have ne: "messages ?r \<noteq> []"
        and sub: "set (archiveConversation e (messages ?r) (assistantName (as_ContainerInput v)) None)
                    \<subseteq> set (trace (final ?r))"
        by auto
      from archive_writes[OF ne io df, of "assistantName (as_ContainerInput v)" None]
      obtain path md where
        "archiveConversation e (messages ?r) (assistantName (as_ContainerInput v)) None
           = [WriteFile path md]" by blast
      with sub show ?thesis by auto
    qed
    moreover have "outcome ?r = Exited 0 \<Longrightarrow> messages ?r \<noteq> []"
      using run_session_cases[OF m(2), of e "as_ContainerInput v" sid script] by auto
    ultimately show ?thesis
      using m(1) by (simp add: archiveConversation_def)
  qed
qed

theorem archive_empty_record_witness:
  "outcome (main (sample_env [sample_input]) [] sample_stdin
        [close_after_turn (PromptResult (Some (sample_reply ''hi'')) None)]) = Exited 0
   \<and> messages (main (sample_env [sample_input]) [] sample_stdin
        [close_after_turn (PromptResult (Some (sample_reply ''hi'')) None)])
       = [\<lparr>role = User, content = Some ''hello''\<rparr>]
   \<and> archive_io_error (sample_env [sample_input]) = None
   \<and> (\<exists>path md. WriteFile path md \<in> set (trace (final (main (sample_env [sample_input]) []
         sample_stdin [close_after_turn (PromptResult (Some (sample_reply ''hi'')) None)]))))
   \<and> archiveConversation (sample_env [sample_input]) [] None None = []"
  using archive_empty_record[of "sample_env [sample_input]" None None "[]" sample_stdin
        "[close_after_turn (PromptResult (Some (sample_reply ''hi'')) None)]"]
  by (simp add: eval_defs)

text \<open>
  C10: when the input document has been parsed, a sentinel file found in the inbox at
  startup has no effect on the run: the run is the one that the same inbox without
  the sentinel gives, so the sentinel is never taken for a close request; the part of
  the run that follows the creation of the session starts from an inbox without the
  sentinel; and when the calls before the query loop succeed, the document has a prompt
  and the script describes a first iteration, the prompt of the first turn is submitted
  to the engine.
\<close>

theorem stale_sentinel_ignored:
  assumes "\<not> unparseable e s"
  shows "main e d s script = main e (unlinkSync d IPC_INPUT_CLOSE_SENTINEL) s script
       \<and> (\<not> setup_fails e s
          \<longrightarrow> (\<exists>v sid w. main e d s script = run_session e (as_ContainerInput v) sid w script
                 \<and> \<not> existsSync (inbox w) IPC_INPUT_CLOSE_SENTINEL))
       \<and> (\<not> setup_fails e s \<and> script \<noteq> []
            \<and> (\<exists>v p. JSON_parse e s = Inr v \<and> prompt (as_ContainerInput v) = Some p)
          \<longrightarrow> (\<exists>sid p'. SessionPrompt sid (JStr p') False
                           \<in> set (trace (final (main e d s script)))))"
proof -
  from assms obtain v where v: "JSON_parse e s = Inr v" "v \<noteq> JNull"
    by (auto simp: unparseable_def split: sum.splits)
  have gf: "js_prop v ''groupFolder'' = Inr (js_prop_opt (Some v) ''groupFolder'')"
    using v(2) by (rule js_prop_not_null)
  have eq: "main e d s script = main e (unlinkSync d IPC_INPUT_CLOSE_SENTINEL) s script"
    using v gf by (simp add: main_def unlinkSync_twice)
  have clean: "\<exists>v sid w. main e d s script = run_session e (as_ContainerInput v) sid w script
                 \<and> \<not> existsSync (inbox w) IPC_INPUT_CLOSE_SENTINEL"
    if sf: "\<not> setup_fails e s"
  proof -
    from main_after_setup[OF assms sf, of d script]
    obtain v' sid w where m: "main e d s script = run_session e (as_ContainerInput v') sid w script"
      "inbox w = unlinkSync d IPC_INPUT_CLOSE_SENTINEL" by blast
    from m(2) have "\<not> existsSync (inbox w) IPC_INPUT_CLOSE_SENTINEL"
      by (simp add: not_existsSync_unlinkSync)
    with m(1) show ?thesis by blast
  qed
  have sub: "\<exists>sid p'. SessionPrompt sid (JStr p') False \<in> set (trace (final (main e d s script)))"
    if sf: "\<not> setup_fails e s" and sc: "script \<noteq> []"
      and p: "\<exists>v p. JSON_parse e s = Inr v \<and> prompt (as_ContainerInput v) = Some p"
  proof -
    from main_after_setup[OF assms sf, of d script]
    obtain v' sid w where m: "JSON_parse e s = Inr v'"
      "main e d s script = run_session e (as_ContainerInput v') sid w script" by blast
    with p obtain q where "prompt (as_ContainerInput v') = Some q" by auto
    from run_session_submits[OF this sc, of sid e w] m(2) show ?thesis by auto
  qed
  show ?thesis using eq clean sub by blast
qed

theorem stale_sentinel_ignored_witness:
  "\<not> unparseable (sample_env [sample_input]) sample_stdin
   \<and> \<not> setup_fails (sample_env [sample_input]) sample_stdin
   \<and> JSON_parse (sample_env [sample_input]) sample_stdin = Inr sample_input
   \<and> prompt (as_ContainerInput sample_input) = Some ''hello''
   \<and> main (sample_env [sample_input]) [(''_close'', [])] sample_stdin
        [close_after_turn (PromptResult (Some (sample_reply ''hi'')) None)]
      = main (sample_env [sample_input]) [] sample_stdin
        [close_after_turn (PromptResult (Some (sample_reply ''hi'')) None)]
   \<and> (\<exists>sid p'. SessionPrompt sid (JStr p') False
         \<in> set (trace (final (main (sample_env [sample_input]) [(''_close'', [])] sample_stdin
                  [close_after_turn (PromptResult (Some (sample_reply ''hi'')) None)]))))"
  using stale_sentinel_ignored[of "sample_env [sample_input]" sample_stdin "[(''_close'', [])]"
        "[close_after_turn (PromptResult (Some (sample_reply ''hi'')) None)]"]
  by (simp add: eval_defs)

section \<open>The output protocol read back\<close>

declare parse_members.simps [simp del]

declare host_read.simps [simp del]

lemma hex_digit_value: "d < 16 \<Longrightarrow> hex_value (hex_digit d) = Some d"
proof -
  have "\<forall>d\<in>set [0..<16]. hex_value (hex_digit d) = Some d"
    by code_simp
  then show "d < 16 \<Longrightarrow> hex_value (hex_digit d) = Some d" by simp
qed

lemma hex_digit_no_newline: "d < 16 \<Longrightarrow> hex_digit d \<noteq> CHR 0x0A"
proof -
  have "\<forall>d\<in>set [0..<16]. hex_digit d \<noteq> CHR 0x0A"
    by code_simp
  then show "d < 16 \<Longrightarrow> hex_digit d \<noteq> CHR 0x0A" by simp
qed

lemma hex_value_0: "hex_value CHR ''0'' = Some 0"
  by (simp add: hex_value_def)

text \<open>The escape that \<open>escape_char\<close> writes for a control character reads back as it.\<close>

lemma hex4_control:
  assumes "(of_char c :: nat) < 32"
  shows "hex4 CHR ''0'' CHR ''0'' (hex_digit (of_char c div 16)) (hex_digit (of_char c mod 16))
           = Some c"
proof -
  let ?n = "of_char c :: nat"
  have "?n div 16 < 16" using assms by simp
  then have a: "hex_value (hex_digit (?n div 16)) = Some (?n div 16)" by (rule hex_digit_value)
  have b: "hex_value (hex_digit (?n mod 16)) = Some (?n mod 16)" by (rule hex_digit_value) simp
  have "?n div 16 * 16 + ?n mod 16 = ?n" by simp
  moreover have "?n < 256" using assms by simp
  ultimately show ?thesis
    by (simp add: hex4_def hex_value_0 a b Let_def)
qed

lemma lex_string_escape:
  "lex_string acc (escape_char c @ rest) = lex_string (c # acc) rest"
proof -
  consider "c = CHR 0x22" | "c = CHR 0x5C" | "c = CHR 0x08" | "c = CHR 0x0C" | "c = CHR 0x0A"
    | "c = CHR 0x0D" | "c = CHR 0x09"
    | "c \<notin> {CHR 0x22, CHR 0x5C, CHR 0x08, CHR 0x0C, CHR 0x0A, CHR 0x0D, CHR 0x09}"
      "(of_char c :: nat) < 32"
    | "c \<notin> {CHR 0x22, CHR 0x5C, CHR 0x08, CHR 0x0C, CHR 0x0A, CHR 0x0D, CHR 0x09}"
      "\<not> (of_char c :: nat) < 32"
    by blast
  then show ?thesis
  proof cases
    case 8
    then show ?thesis
      using hex4_control[of c] by (simp add: escape_char_def)
  next
    case 9
    then show ?thesis by (simp add: escape_char_def)
  qed (simp_all add: escape_char_def unescape_char_def)
qed

lemma lex_string_quoted:
  "lex_string acc (concat (map escape_char s) @ CHR 0x22 # rest) = Some (rev acc @ s, rest)"
proof (induction s arbitrary: acc)
  case Nil
  then show ?case by simp
next
  case (Cons c s)
  have "lex_string acc (concat (map escape_char (c # s)) @ CHR 0x22 # rest)
          = lex_string acc (escape_char c @ (concat (map escape_char s) @ CHR 0x22 # rest))"
    by simp
  also have "\<dots> = lex_string (c # acc) (concat (map escape_char s) @ CHR 0x22 # rest)"
    by (rule lex_string_escape)
  also have "\<dots> = Some (rev (c # acc) @ s, rest)" by (rule Cons.IH)
  finally show ?case by simp
qed

lemma JSON_stringify_JObj:
  "JSON_stringify (JObj kvs) = ''{'' @ intercalate '','' (map member_text kvs) @ ''}''"
proof -
  have "(\<lambda>(k, v). quote k @ '':'' @ JSON_stringify v) = member_text"
    by (auto simp: member_text_def fun_eq_iff)
  then show ?thesis by simp
qed

lemma parse_value_flat:
  "flat_value v \<Longrightarrow> parse_value (JSON_stringify v @ rest) = Some (v, rest)"
  by (cases v) (simp_all add: parse_value_def quote_def lex_string_quoted)

lemma parse_member_text:
  "flat_value (snd kv) \<Longrightarrow> parse_member (member_text kv @ rest) = Some (kv, rest)"
  by (simp add: parse_member_def member_text_def quote_def lex_string_quoted parse_value_flat)

lemma parse_members_text:
  "kvs \<noteq> [] \<Longrightarrow> list_all (\<lambda>kv. flat_value (snd kv)) kvs \<Longrightarrow>
     parse_members (intercalate '','' (map member_text kvs) @ ''}'') = Some kvs"
proof (induction kvs rule: induct_list012)
  case 1
  then show ?case by simp
next
  case (2 kv)
  then have "parse_member (member_text kv @ ''}'') = Some (kv, ''}'')"
    by (intro parse_member_text) simp
  then show ?case
    by (subst parse_members.simps) simp
next
  case (3 kv kv' kvs)
  let ?rest = "intercalate '','' (map member_text (kv' # kvs)) @ ''}''"
  from 3(4) have "flat_value (snd kv)" by simp
  then have "parse_member (member_text kv @ '','' @ ?rest) = Some (kv, '','' @ ?rest)"
    by (rule parse_member_text)
  then have "parse_members (member_text kv @ '','' @ ?rest)
               = map_option (Cons kv) (parse_members ?rest)"
    by (subst parse_members.simps) simp
  moreover have "parse_members ?rest = Some (kv' # kvs)"
    using 3(2) 3(4) by simp
  ultimately show ?case by simp
qed

lemma member_text_starts: "\<exists>r. member_text kv = CHR 0x22 # r"
  by (simp add: member_text_def quote_def)

lemma JSON_decode_object_stringify:
  assumes "kvs \<noteq> []" and "list_all (\<lambda>kv. flat_value (snd kv)) kvs"
  shows "JSON_decode_object (JSON_stringify (JObj kvs)) = Some kvs"
proof -
  from assms(1) obtain kv rest where kvs: "kvs = kv # rest" by (cases kvs) auto
  obtain r where r: "member_text kv = CHR 0x22 # r" using member_text_starts by blast
  have "intercalate '','' (map member_text kvs) @ ''}'' \<noteq> ''}''"
    using kvs r by (cases rest) simp_all
  then show ?thesis
    using parse_members_text[OF assms]
    by (simp add: JSON_decode_object_def JSON_stringify_JObj del: JSON_stringify.simps)
qed

text \<open>The JSON line of an envelope decodes to the envelope.\<close>

lemma decode_envelope_stringify:
  "decode_envelope (JSON_stringify (output_json out)) = Some out"
proof -
  obtain kvs where kvs: "output_json out = JObj kvs" by (simp add: output_json_def)
  have ne: "kvs \<noteq> []" and flat: "list_all (\<lambda>kv. flat_value (snd kv)) kvs"
    using kvs by (auto simp: output_json_def split: option.splits status.splits)
  have "as_envelope kvs = Some out"
    using kvs
    by (cases out; cases "status out"; cases "result out"; cases "newSessionId out";
        cases "error out")
       (auto simp: output_json_def as_envelope_def)
  then show ?thesis
    using JSON_decode_object_stringify[OF ne flat] kvs
    by (simp add: decode_envelope_def del: JSON_stringify.simps)
qed

text \<open>The JSON line of an envelope contains no newline: it is one line.\<close>

lemma escape_char_no_newline: "CHR 0x0A \<notin> set (escape_char c)"
proof (cases "(of_char c :: nat) < 32")
  case True
  then have "of_char c div 16 < (16::nat)" by simp
  then have "hex_digit (of_char c div 16) \<noteq> CHR 0x0A" by (rule hex_digit_no_newline)
  moreover have "hex_digit (of_char c mod 16) \<noteq> CHR 0x0A" by (rule hex_digit_no_newline) simp
  ultimately show ?thesis by (auto simp: escape_char_def)
next
  case False
  then show ?thesis by (auto simp: escape_char_def)
qed

lemma quote_no_newline: "CHR 0x0A \<notin> set (quote s)"
  using escape_char_no_newline by (auto simp: quote_def)

lemma flat_no_newline: "flat_value v \<Longrightarrow> CHR 0x0A \<notin> set (JSON_stringify v)"
  using quote_no_newline by (cases v) auto

lemma member_text_no_newline: "flat_value (snd kv) \<Longrightarrow> CHR 0x0A \<notin> set (member_text kv)"
  using quote_no_newline flat_no_newline by (auto simp: member_text_def)

lemma members_no_newline:
  "list_all (\<lambda>kv. flat_value (snd kv)) kvs \<Longrightarrow>
     CHR 0x0A \<notin> set (intercalate '','' (map member_text kvs))"
  by (induction kvs rule: induct_list012) (auto dest: member_text_no_newline)

lemma envelope_one_line: "CHR 0x0A \<notin> set (JSON_stringify (output_json out))"
proof -
  obtain kvs where kvs: "output_json out = JObj kvs" by (simp add: output_json_def)
  have flat: "list_all (\<lambda>kv. flat_value (snd kv)) kvs"
    using kvs by (auto simp: output_json_def split: option.splits status.splits)
  from members_no_newline[OF flat] show ?thesis
    by (simp add: kvs JSON_stringify_JObj del: JSON_stringify.simps)
qed

text \<open>
  C8, as stated, at the success envelope whose reply text is the end marker literal:
  \<^verbatim>\<open>JSON.stringify\<close> leaves the literal as it is, so the first end marker that the reader
  finds after the start marker is the one inside the JSON line, the text enclosed by the
  pair is cut short and does not decode, and the envelope is not read back.
\<close>

theorem marker_in_text_counterexample:
  "host_read (stdout_text (writeOutput marker_envelope)) = [None]
   \<and> host_read (stdout_text (writeOutput marker_envelope)) \<noteq> [Some marker_envelope]"
  by code_simp

text \<open>Splitting at a marker literal that stands first, or first after a line break.\<close>

lemma split_marker_here: "split_marker m (m @ r) = Some ([], r)"
proof (cases "m @ r")
  case Nil
  then show ?thesis by simp
next
  case (Cons c cs)
  have "take (length m) (m @ r) = m" "drop (length m) (m @ r) = r" by simp_all
  with Cons have "take (length m) (c # cs) = m" "drop (length m) (c # cs) = r" by simp_all
  with Cons show ?thesis by simp
qed

lemma take_marker_across:
  assumes "take (length m) (s @ CHR 0x0A # r) = m" and "CHR 0x0A \<notin> set m"
  shows "take (length m) s = m"
proof (cases "length m \<le> length s")
  case True
  with assms(1) show ?thesis by simp
next
  case False
  then have "take (length m) (s @ CHR 0x0A # r) = s @ CHR 0x0A # take (length m - Suc (length s)) r"
    by (simp add: take_Cons')
  with assms(1) have "CHR 0x0A \<in> set m" by (metis in_set_conv_decomp)
  with assms(2) show ?thesis by simp
qed

lemma split_marker_first:
  assumes "\<not> occurs m s" and "CHR 0x0A \<notin> set m" and "m \<noteq> []"
  shows "split_marker m (s @ CHR 0x0A # m @ r) = Some (s @ [CHR 0x0A], r)"
  using assms(1)
proof (induction s)
  case Nil
  from assms(2,3) have "take (length m) (CHR 0x0A # m @ r) \<noteq> m"
    by (cases m) auto
  then show ?case by (simp add: split_marker_here)
next
  case (Cons c s)
  then have no: "take (length m) (c # s) \<noteq> m" and rest: "\<not> occurs m s" by simp_all
  have "take (length m) ((c # s) @ CHR 0x0A # m @ r) \<noteq> m"
    using take_marker_across[of m "c # s" "m @ r"] assms(2) no by blast
  then show ?case using Cons.IH[OF rest] by simp
qed

lemma enclosed_line_between:
  assumes "CHR 0x0A \<notin> set l"
  shows "enclosed_line (CHR 0x0A # l @ [CHR 0x0A]) = l"
proof (cases l rule: rev_cases)
  case Nil
  then show ?thesis by (simp add: enclosed_line_def)
next
  case (snoc ys y)
  with assms have y: "y \<noteq> CHR 0x0A" by auto
  from snoc have "l \<noteq> []" by simp
  then obtain a list where al: "l = a # list" by (cases l) auto
  with assms have "a \<noteq> CHR 0x0A" by auto
  then have "dropWhile (\<lambda>c. c = CHR 0x0A) (l @ [CHR 0x0A]) = l @ [CHR 0x0A]"
    using al by simp
  then show ?thesis using snoc y by (simp add: enclosed_line_def)
qed


lemma marker_lines:
  "CHR 0x0A \<notin> set OUTPUT_START_MARKER" "CHR 0x0A \<notin> set OUTPUT_END_MARKER"
  "OUTPUT_END_MARKER \<noteq> []"
  by (simp_all add: OUTPUT_START_MARKER_def OUTPUT_END_MARKER_def)

lemma stdout_text_writeOutput:
  "stdout_text (writeOutput out)
     = OUTPUT_START_MARKER @ CHR 0x0A # JSON_stringify (output_json out) @ CHR 0x0A
         # OUTPUT_END_MARKER @ [CHR 0x0A]"
  by (simp add: stdout_text_def writeOutput_def del: JSON_stringify.simps)

lemma host_read_newline: "host_read [CHR 0x0A] = []"
  by (subst host_read.simps) (simp add: OUTPUT_START_MARKER_def)

text \<open>
  C8, amended: for every envelope whose JSON line does not contain the end marker
  literal, the three lines that \<^verbatim>\<open>writeOutput\<close> puts on standard output, read back by
  splitting the stream on the two marker literals and decoding the enclosed line as JSON,
  give exactly one result, which is the envelope. The start marker literal inside the JSON
  line does no harm.
\<close>

theorem envelope_round_trip:
  assumes "\<not> occurs OUTPUT_END_MARKER (JSON_stringify (output_json out))"
  shows "host_read (stdout_text (writeOutput out)) = [Some out]"
proof -
  let ?json = "JSON_stringify (output_json out)"
  have "take (length OUTPUT_END_MARKER) (CHR 0x0A # ?json) \<noteq> OUTPUT_END_MARKER"
    by (simp add: OUTPUT_END_MARKER_def del: JSON_stringify.simps)
  with assms have no: "\<not> occurs OUTPUT_END_MARKER (CHR 0x0A # ?json)"
    by (simp del: JSON_stringify.simps)
  have start: "split_marker OUTPUT_START_MARKER (stdout_text (writeOutput out))
                 = Some ([], CHR 0x0A # ?json @ CHR 0x0A # OUTPUT_END_MARKER @ [CHR 0x0A])"
    unfolding stdout_text_writeOutput by (rule split_marker_here)
  have stop: "split_marker OUTPUT_END_MARKER (CHR 0x0A # ?json @ CHR 0x0A # OUTPUT_END_MARKER @ [CHR 0x0A])
                = Some (CHR 0x0A # ?json @ [CHR 0x0A], [CHR 0x0A])"
    using split_marker_first[OF no marker_lines(2) marker_lines(3), of "[CHR 0x0A]"]
    by (simp del: JSON_stringify.simps split_marker.simps)
  have line: "enclosed_line (CHR 0x0A # ?json @ [CHR 0x0A]) = ?json"
    using envelope_one_line by (rule enclosed_line_between)
  show ?thesis
    by (subst host_read.simps)
       (simp add: start stop line decode_envelope_stringify host_read_newline
             del: JSON_stringify.simps split_marker.simps)
qed

theorem envelope_round_trip_witness:
  "host_read (stdout_text (writeOutput
        (error_output ''ses_1'' (''a\"b'' @ [CHR 0x0A] @ OUTPUT_START_MARKER @ ''-END-''))))
     = [Some (error_output ''ses_1'' (''a\"b'' @ [CHR 0x0A] @ OUTPUT_START_MARKER @ ''-END-''))]"
  using envelope_round_trip[of
      "error_output ''ses_1'' (''a\"b'' @ [CHR 0x0A] @ OUTPUT_START_MARKER @ ''-END-'')"]
  by (simp add: error_output_def output_json_def quote_def escape_char_def OUTPUT_END_MARKER_def
        OUTPUT_START_MARKER_def)

end
